theory Spec2Isabelle
  imports Complex_Main
begin

section \<open>The task profiler of just-task (packages/just-task/src/profiler.ts)\<close>

text \<open>
  The profiler records one entry per task id in a JavaScript array indexed by the id and
  writes the array, with some session data, as a JSON trace file. Everything the class reads
  from its surroundings (the monotonic clock, the working directory, the process id, the file
  system, the JSON parser, the wall clock) is collected in a record \<open>platform\<close> that each
  call receives; exceptions are values of type \<open>error\<close>, and every method returns its outcome
  together with the state of the object after the call.
\<close>

subsection \<open>JSON values and errors\<close>

text \<open>
  A JSON value, as \<open>JSON.parse\<close> returns it and as \<open>outputJsonSync\<close> receives it. An object is
  the list of its members in insertion order. Numbers are exact rationals: the source computes
  in double precision, the model without rounding.
\<close>

datatype json =
    JNull
  | JBool bool
  | JNum rat
  | JStr string
  | JArr "json list"
  | JObj "(string \<times> json) list"

text \<open>
  \<open>Error msg\<close> is \<open>new Error(msg)\<close>, thrown by the profiler itself. The others come from the
  platform: \<open>SyntaxError\<close> from \<open>JSON.parse\<close>, \<open>TypeError\<close> from reading a property of
  \<open>null\<close>, \<open>SystemError\<close> from the file system.
\<close>

datatype error = Error string | SyntaxError | TypeError | SystemError

text \<open>The member of a JSON value under a key; \<open>None\<close> is JavaScript's \<open>undefined\<close>.\<close>

fun field :: "string \<Rightarrow> json \<Rightarrow> json option" where
  "field k (JObj kvs) = map_of kvs k"
| "field k _ = None"

text \<open>
  The property read \<open>packageJson.name\<close> on a parsed value: \<open>null\<close> has no properties and the
  read throws, an object yields its member, every other JSON value yields \<open>undefined\<close>.
\<close>

fun get_name :: "json \<Rightarrow> error + json option" where
  "get_name JNull = Inl TypeError"
| "get_name v = Inr (field ''name'' v)"

subsection \<open>The platform\<close>

text \<open>
  \<open>process.hrtime()\<close> is a pair \<open>[seconds, nanoseconds]\<close>; a \<open>Date\<close> is its time value in
  milliseconds.
\<close>

type_synonym hrtime = "int \<times> int"
type_synonym Date = int

record platform =
  process_hrtime :: hrtime
  process_cwd :: string
  process_pid :: nat
  path_join :: "string \<Rightarrow> string \<Rightarrow> string"
  existsSync :: "string \<Rightarrow> bool"
  readFileSync :: "string \<Rightarrow> error + string"
  JSON_parse :: "string \<Rightarrow> error + json"
  new_Date :: Date
  toJSON :: "Date \<Rightarrow> string"

text \<open>
  \<open>process.hrtime(time)\<close>: the time elapsed since the earlier reading \<open>time\<close>, again as
  \<open>[seconds, nanoseconds]\<close>, the nanoseconds borrowed from the seconds when the difference
  is negative, as Node.js computes it.
\<close>

definition process_hrtime_since :: "platform \<Rightarrow> hrtime \<Rightarrow> hrtime" where
  "process_hrtime_since pf time =
     (let sec = fst (process_hrtime pf) - fst time;
          nsec = snd (process_hrtime pf) - snd time
      in if nsec < 0 then (sec - 1, nsec + 1000000000) else (sec, nsec))"

subsection \<open>JavaScript arrays\<close>

text \<open>
  An array is an object with a \<open>length\<close>: a property under every key that was assigned and
  the length, which an assignment under an array index (an integer from 0 to \<open>2^32 - 2\<close>)
  raises to that index plus one. An assignment under any other key, a negative id for
  instance, sets a property and leaves the length alone. The elements, as \<open>JSON.stringify\<close>
  walks them, are the properties under \<open>0 .. length - 1\<close>; \<open>None\<close> is a hole.
\<close>

record 'a js_array =
  props :: "int \<rightharpoonup> 'a"
  length_a :: nat

definition is_array_index :: "int \<Rightarrow> bool" where
  "is_array_index i \<longleftrightarrow> 0 \<le> i \<and> i < 2 ^ 32 - 1"

definition empty_array :: "'a js_array" where
  "empty_array = \<lparr>props = Map.empty, length_a = 0\<rparr>"

definition arr_get :: "'a js_array \<Rightarrow> int \<Rightarrow> 'a option" where
  "arr_get a i = props a i"

definition arr_set :: "'a js_array \<Rightarrow> int \<Rightarrow> 'a \<Rightarrow> 'a js_array" where
  "arr_set a i v =
     \<lparr>props = (props a)(i \<mapsto> v),
      length_a = (if is_array_index i then max (length_a a) (nat i + 1) else length_a a)\<rparr>"

definition arr_elems :: "'a js_array \<Rightarrow> 'a option list" where
  "arr_elems a = map (\<lambda>k. props a (int k)) [0..<length_a a]"

subsection \<open>Profile entries and the profiler\<close>

datatype phase = X

datatype task_state = running | succeeded | failed

text \<open>
  The interface \<open>ProfileEntry\<close>. The fields \<open>id\<close> and \<open>startTime\<close> carry the suffix \<open>_e\<close>:
  \<open>id\<close> is a constant of HOL and \<open>startTime\<close> is a field of the profiler as well. Absent
  \<open>dur\<close> and \<open>packageName\<close> are \<open>None\<close>. The package name is whatever \<open>name\<close> member the
  manifest has, so a JSON value.
\<close>

record ProfileEntry =
  name :: string
  ph :: phase
  ts :: rat
  pid :: nat
  tid :: int
  dur :: "rat option"
  id_e :: int
  cwd :: string
  packageName :: "json option"
  state :: task_state
  startTime_e :: hrtime

record Profiler =
  startTime :: Date
  outputFolder :: string
  endTime :: "Date option"
  entries :: "ProfileEntry js_array"

definition hrtimeToMicroSeconds :: "hrtime \<Rightarrow> rat" where
  "hrtimeToMicroSeconds hrtime =
     (of_int (fst hrtime) * 1000000000 + of_int (snd hrtime)) / 1000"

text \<open>The constructor: an absent or empty \<open>outputFolder\<close> is falsy and gives the working directory.\<close>

definition new_Profiler :: "platform \<Rightarrow> string option \<Rightarrow> Profiler" where
  "new_Profiler pf folder =
     \<lparr>startTime = new_Date pf,
      outputFolder = (case folder of
                        None \<Rightarrow> process_cwd pf
                      | Some f \<Rightarrow> if f = [] then process_cwd pf else f),
      endTime = None,
      entries = empty_array\<rparr>"

definition unexpected_state :: error where
  "unexpected_state =
     Error (''Error: Usage of '' @ [CHR 0x27] @ ''--profile'' @ [CHR 0x27]
            @ '' encountered an unexpected state.'')"

text \<open>Lines 68 to 75 of \<open>start\<close>: the package name from the manifest in the working directory.\<close>

definition read_packageName :: "platform \<Rightarrow> string \<Rightarrow> error + json option" where
  "read_packageName pf dir =
     (let packageJsonPath = path_join pf dir ''package.json''
      in if existsSync pf packageJsonPath
         then (case readFileSync pf packageJsonPath of
                 Inl e \<Rightarrow> Inl e
               | Inr text \<Rightarrow>
                   (case JSON_parse pf text of
                      Inl e \<Rightarrow> Inl e
                    | Inr packageJson \<Rightarrow> get_name packageJson))
         else Inr None)"

definition start :: "platform \<Rightarrow> int \<Rightarrow> string \<Rightarrow> Profiler \<Rightarrow> (error + unit) \<times> Profiler" where
  "start pf i nm p =
     (case arr_get (entries p) i of
        Some _ \<Rightarrow> (Inl unexpected_state, p)
      | None \<Rightarrow>
          (case read_packageName pf (process_cwd pf) of
             Inl e \<Rightarrow> (Inl e, p)
           | Inr pkg \<Rightarrow>
               (Inr (),
                p\<lparr>entries := arr_set (entries p) i
                     \<lparr>name = nm,
                      ph = X,
                      ts = hrtimeToMicroSeconds (process_hrtime pf),
                      pid = process_pid pf,
                      tid = i,
                      dur = None,
                      id_e = i,
                      cwd = process_cwd pf,
                      packageName = pkg,
                      state = running,
                      startTime_e = process_hrtime pf\<rparr>\<rparr>)))"

text \<open>
  \<open>stop\<close> assigns to two fields of the entry object; the array itself is not assigned to, so
  its length stays.
\<close>

definition stop :: "platform \<Rightarrow> int \<Rightarrow> bool \<Rightarrow> Profiler \<Rightarrow> (error + unit) \<times> Profiler" where
  "stop pf i success p =
     (case arr_get (entries p) i of
        None \<Rightarrow> (Inl unexpected_state, p)
      | Some entry \<Rightarrow>
          (Inr (),
           p\<lparr>entries := (entries p)
                \<lparr>props := (props (entries p))
                   (i \<mapsto> entry
                      \<lparr>state := (if success then succeeded else failed),
                       dur := Some (hrtimeToMicroSeconds
                                      (process_hrtime_since pf (startTime_e entry)))\<rparr>)\<rparr>\<rparr>))"

subsection \<open>Serialisation\<close>

text \<open>
  What \<open>JSON.stringify\<close> makes of an entry: its properties in the order of their creation
  (\<open>dur\<close>, added by \<open>stop\<close>, comes last), without those whose value is \<open>undefined\<close>; a hole
  of the array becomes \<open>null\<close>.
\<close>

definition state_name :: "task_state \<Rightarrow> string" where
  "state_name s = (case s of running \<Rightarrow> ''running'' | succeeded \<Rightarrow> ''succeeded'' | failed \<Rightarrow> ''failed'')"

definition optional :: "string \<Rightarrow> json option \<Rightarrow> (string \<times> json) list" where
  "optional k v = (case v of None \<Rightarrow> [] | Some j \<Rightarrow> [(k, j)])"

definition entry_json :: "ProfileEntry \<Rightarrow> json" where
  "entry_json e =
     JObj ([(''name'', JStr (name e)),
            (''ph'', JStr ''X''),
            (''ts'', JNum (ts e)),
            (''pid'', JNum (of_nat (pid e))),
            (''tid'', JNum (of_int (tid e))),
            (''cwd'', JStr (cwd e))]
           @ optional ''packageName'' (packageName e)
           @ [(''id'', JNum (of_int (id_e e))),
              (''state'', JStr (state_name (state e))),
              (''startTime'', JArr [JNum (of_int (fst (startTime_e e))),
                                    JNum (of_int (snd (startTime_e e)))])]
           @ optional ''dur'' (map_option JNum (dur e)))"

definition element_json :: "ProfileEntry option \<Rightarrow> json" where
  "element_json x = (case x of None \<Rightarrow> JNull | Some e \<Rightarrow> entry_json e)"

definition array_json :: "ProfileEntry js_array \<Rightarrow> json" where
  "array_json a = JArr (map element_json (arr_elems a))"

text \<open>\<open>s.replace(/-|:|/g, '')\<close>: every \<open>-\<close> and every \<open>:\<close> goes, the empty matches change nothing.\<close>

definition strip_separators :: "string \<Rightarrow> string" where
  "strip_separators s = filter (\<lambda>c. c \<noteq> CHR ''-'' \<and> c \<noteq> CHR '':'') s"

text \<open>
  \<open>write\<close> sets \<open>endTime\<close> and hands a path and a document to \<open>outputJsonSync\<close>. The result
  is the profiler afterwards and the two arguments of that call, that is the file written.
\<close>

definition "write" :: "platform \<Rightarrow> Profiler \<Rightarrow> Profiler \<times> string \<times> json" where
  "write pf p =
     (let endT = new_Date pf;
          fileName = ''just-tasks-Profile-'' @ strip_separators (toJSON pf endT) @ ''.json''
      in (p\<lparr>endTime := Some endT\<rparr>,
          path_join pf (outputFolder p) fileName,
          JObj [(''traceEvents'', array_json (entries p)),
                (''displayTimeUnit'', JStr ''ms''),
                (''otherData'',
                 JObj [(''source'', JStr ''just-tasks profiler''),
                       (''startTime'', JStr (toJSON pf (startTime p))),
                       (''endTime'', JStr (toJSON pf endT))])]))"

subsection \<open>Call sequences and example platforms\<close>

text \<open>The reading of the monotonic clock in nanoseconds.\<close>

definition hr_nanos :: "hrtime \<Rightarrow> int" where
  "hr_nanos t = fst t * 1000000000 + snd t"

text \<open>
  A caller's sequence of \<open>start\<close> and \<open>stop\<close> calls, each with the platform as it is at the
  call. An exception ends the sequence.
\<close>

datatype call = Start int string | Stop int bool

fun exec :: "platform \<times> call \<Rightarrow> Profiler \<Rightarrow> (error + unit) \<times> Profiler" where
  "exec (pf, Start i nm) p = start pf i nm p"
| "exec (pf, Stop i success) p = stop pf i success p"

fun run :: "(platform \<times> call) list \<Rightarrow> Profiler \<Rightarrow> (error + unit) \<times> Profiler" where
  "run [] p = (Inr (), p)"
| "run (c # cs) p =
     (case exec c p of
        (Inl e, p') \<Rightarrow> (Inl e, p')
      | (Inr _, p') \<Rightarrow> run cs p')"

text \<open>The ids started in a sequence, and the success flags of the stops of one id, in order.\<close>

fun started_ids :: "(platform \<times> call) list \<Rightarrow> int list" where
  "started_ids [] = []"
| "started_ids ((pf, Start i nm) # cs) = i # started_ids cs"
| "started_ids ((pf, Stop i success) # cs) = started_ids cs"

fun stop_flags :: "int \<Rightarrow> (platform \<times> call) list \<Rightarrow> bool list" where
  "stop_flags i [] = []"
| "stop_flags i ((pf, Start j nm) # cs) = stop_flags i cs"
| "stop_flags i ((pf, Stop j success) # cs) =
     (if j = i then success # stop_flags i cs else stop_flags i cs)"

text \<open>The trace events of a written document.\<close>

definition traceEvents :: "json \<Rightarrow> json list" where
  "traceEvents doc = (case field ''traceEvents'' doc of Some (JArr evs) \<Rightarrow> evs | _ \<Rightarrow> [])"

fun keys :: "json \<Rightarrow> string list" where
  "keys (JObj kvs) = map fst kvs"
| "keys _ = []"

text \<open>
  Three platforms for worked examples, with the clock at \<open>t\<close>: in \<open>node\<close> the working
  directory has no manifest, in \<open>node_named\<close> it has one that parses to an object with a
  name, in \<open>node_broken\<close> it has one that \<open>JSON.parse\<close> rejects.
\<close>

definition node :: "hrtime \<Rightarrow> platform" where
  "node t =
     \<lparr>process_hrtime = t,
      process_cwd = ''/repo'',
      process_pid = 4242,
      path_join = (\<lambda>a b. a @ ''/'' @ b),
      existsSync = (\<lambda>f. False),
      readFileSync = (\<lambda>f. Inl SystemError),
      JSON_parse = (\<lambda>s. Inl SyntaxError),
      new_Date = 1556714096789,
      toJSON = (\<lambda>d. ''2019-05-01T12:34:56.789Z'')\<rparr>"

definition node_named :: "hrtime \<Rightarrow> platform" where
  "node_named t =
     (node t)
       \<lparr>existsSync := (\<lambda>f. f = ''/repo/package.json''),
        readFileSync := (\<lambda>f. if f = ''/repo/package.json'' then Inr ''{name:just}''
                              else Inl SystemError),
        JSON_parse := (\<lambda>s. if s = ''{name:just}'' then Inr (JObj [(''name'', JStr ''just'')])
                            else Inl SyntaxError)\<rparr>"

definition node_broken :: "hrtime \<Rightarrow> platform" where
  "node_broken t =
     (node t)
       \<lparr>existsSync := (\<lambda>f. f = ''/repo/package.json''),
        readFileSync := (\<lambda>f. if f = ''/repo/package.json'' then Inr ''{name:''
                              else Inl SystemError)\<rparr>"

text \<open>
  Two profilers for worked examples: one just constructed, and the same after
  \<open>start(1, "build")\<close> with the clock at 5 s + 100 ns, no manifest in the working directory.
\<close>

definition fresh :: Profiler where
  "fresh = new_Profiler (node (0, 0)) None"

definition building :: Profiler where
  "building = snd (start (node (5, 100)) 1 ''build'' fresh)"

text \<open>
  A sequence for worked examples: two tasks, ids 1 and 0, started and then stopped, the
  first as succeeded and the second as failed, under a clock that advances.
\<close>

definition two_tasks :: "(platform \<times> call) list" where
  "two_tasks =
     [(node (5, 100), Start 1 ''build''),
      (node (6, 0), Start 0 ''lint''),
      (node (7, 50), Stop 1 True),
      (node (8, 0), Stop 0 False)]"

text \<open>And a sequence of one call: \<open>start(2, "lint")\<close>, no manifest in the working directory.\<close>

definition one_task :: "(platform \<times> call) list" where
  "one_task = [(node (5, 100), Start 2 ''lint'')]"

text \<open>
  What holds of the array in every state the methods can produce: an entry sits under its
  own id, its \<open>ts\<close> is its start reading in microseconds, an array index that has an entry
  is below the length, and \<open>dur\<close> is absent exactly while the state is \<open>running\<close>.
\<close>

definition well_formed :: "ProfileEntry js_array \<Rightarrow> bool" where
  "well_formed a \<longleftrightarrow>
     (\<forall>i e. props a i = Some e \<longrightarrow>
        tid e = i \<and> id_e e = i \<and> ts e = hrtimeToMicroSeconds (startTime_e e) \<and>
        (is_array_index i \<longrightarrow> nat i < length_a a) \<and>
        (dur e = None \<longleftrightarrow> state e = running))"

section \<open>Properties\<close>

subsection \<open>Elapsed time\<close>

lemma hrtime_since_micro:
  "hrtimeToMicroSeconds (process_hrtime_since pf t) =
     of_int (hr_nanos (process_hrtime pf) - hr_nanos t) / 1000"
  by (simp add: hrtimeToMicroSeconds_def process_hrtime_since_def hr_nanos_def Let_def)

lemmas profiler_defs =
  stop_def start_def new_Profiler_def arr_get_def arr_set_def empty_array_def
  read_packageName_def write_def array_json_def arr_elems_def is_array_index_def
  element_json_def entry_json_def optional_def state_name_def strip_separators_def
  hrtimeToMicroSeconds_def process_hrtime_since_def hr_nanos_def traceEvents_def

lemmas example_defs = node_def node_named_def node_broken_def fresh_def building_def

subsection \<open>stop\<close>

text \<open>
  Claim C3. For every id, \<open>stop(id, success)\<close> throws the unexpected-state error (the
  specification's UnknownTaskError) when the array has no entry under the id, and the
  profiler is then as it was. Otherwise it returns normally, and the only change is in the
  entry under the id: its state is \<open>succeeded\<close> or \<open>failed\<close> as the flag says and its
  duration is the time from the stored start reading to the clock's reading now, in
  microseconds.
\<close>

theorem stop_unknown_or_records:
  "(arr_get (entries p) i = None \<longrightarrow> stop pf i success p = (Inl unexpected_state, p)) \<and>
   (\<forall>e. arr_get (entries p) i = Some e \<longrightarrow>
      stop pf i success p =
        (Inr (),
         p\<lparr>entries := (entries p)\<lparr>props := (props (entries p))
            (i \<mapsto> e\<lparr>state := (if success then succeeded else failed),
                     dur := Some (of_int (hr_nanos (process_hrtime pf) - hr_nanos (startTime_e e))
                                  / 1000)\<rparr>)\<rparr>\<rparr>))"
  by (simp add: stop_def hrtime_since_micro)

text \<open>
  Stopping id 3 on a new profiler throws; stopping id 1 at 7 s + 50 ns, started at
  5 s + 100 ns, records 1999999.95 microseconds.
\<close>

theorem stop_unknown_or_records_witness:
  "stop (node (7, 50)) 3 True fresh = (Inl unexpected_state, fresh) \<and>
   fst (stop (node (7, 50)) 1 True building) = Inr () \<and>
   map_option dur (arr_get (entries (snd (stop (node (7, 50)) 1 True building))) 1)
     = Some (Some (39999999 / 20)) \<and>
   map_option state (arr_get (entries (snd (stop (node (7, 50)) 1 True building))) 1)
     = Some succeeded"
proof -
  have none: "arr_get (entries fresh) 3 = None"
    by (simp add: fresh_def new_Profiler_def empty_array_def arr_get_def)
  obtain e where some: "arr_get (entries building) 1 = Some e" and st: "startTime_e e = (5, 100)"
    by (simp add: profiler_defs example_defs)
  from stop_unknown_or_records [of fresh 3 "node (7, 50)" True] none
  have a: "stop (node (7, 50)) 3 True fresh = (Inl unexpected_state, fresh)"
    by blast
  from stop_unknown_or_records [of building 1 "node (7, 50)" True] some
  have b: "stop (node (7, 50)) 1 True building =
        (Inr (),
         building\<lparr>entries := (entries building)\<lparr>props := (props (entries building))
            (1 \<mapsto> e\<lparr>state := (if True then succeeded else failed),
                     dur := Some (of_int (hr_nanos (process_hrtime (node (7, 50)))
                                          - hr_nanos (startTime_e e)) / 1000)\<rparr>)\<rparr>\<rparr>)"
    by blast
  show ?thesis
    unfolding a b by (simp add: st arr_get_def hr_nanos_def node_def)
qed

subsection \<open>The members of a serialised entry\<close>

lemma field_entry_json:
  "field ''name'' (entry_json e) = Some (JStr (name e))"
  "field ''ph'' (entry_json e) = Some (JStr ''X'')"
  "field ''ts'' (entry_json e) = Some (JNum (ts e))"
  "field ''pid'' (entry_json e) = Some (JNum (of_nat (pid e)))"
  "field ''tid'' (entry_json e) = Some (JNum (of_int (tid e)))"
  "field ''cwd'' (entry_json e) = Some (JStr (cwd e))"
  "field ''packageName'' (entry_json e) = packageName e"
  "field ''id'' (entry_json e) = Some (JNum (of_int (id_e e)))"
  "field ''state'' (entry_json e) = Some (JStr (state_name (state e)))"
  "field ''startTime'' (entry_json e) =
     Some (JArr [JNum (of_int (fst (startTime_e e))), JNum (of_int (snd (startTime_e e)))])"
  "field ''dur'' (entry_json e) = map_option JNum (dur e)"
  by (simp_all add: entry_json_def optional_def split: option.splits)

lemma traceEvents_write:
  "traceEvents (snd (snd (write pf p))) = map element_json (arr_elems (entries p))"
  by (simp add: write_def traceEvents_def array_json_def Let_def)

lemma length_arr_elems: "length (arr_elems a) = length_a a"
  by (simp add: arr_elems_def)

lemma nth_arr_elems: "k < length_a a \<Longrightarrow> arr_elems a ! k = props a (int k)"
  by (simp add: arr_elems_def)

subsection \<open>start\<close>

text \<open>
  Claim C2, as amended. \<open>start(id, name)\<close> throws the unexpected-state error (the
  specification's DuplicateTaskError) when the array already has an entry under the id, and
  the profiler is then as it was. Otherwise, when reading or parsing the manifest of the
  working directory throws, that error reaches the caller and the profiler is as it was.
  Otherwise the call returns normally and has stored, under the id, a new entry in state
  \<open>running\<close> with the given name, the id as \<open>tid\<close> and \<open>id\<close>, no \<open>dur\<close>, and the clock's
  reading; the other entries and the other fields of the profiler are untouched.
\<close>

theorem start_duplicate_or_records:
  "(\<forall>e. arr_get (entries p) i = Some e \<longrightarrow> start pf i nm p = (Inl unexpected_state, p)) \<and>
   (arr_get (entries p) i = None \<longrightarrow>
      (\<forall>err. read_packageName pf (process_cwd pf) = Inl err \<longrightarrow> start pf i nm p = (Inl err, p)) \<and>
      (\<forall>pkg. read_packageName pf (process_cwd pf) = Inr pkg \<longrightarrow>
         fst (start pf i nm p) = Inr () \<and>
         (\<exists>e. arr_get (entries (snd (start pf i nm p))) i = Some e \<and> state e = running \<and>
              name e = nm \<and> tid e = i \<and> id_e e = i \<and> dur e = None \<and>
              packageName e = pkg \<and> startTime_e e = process_hrtime pf \<and>
              ts e = of_int (hr_nanos (process_hrtime pf)) / 1000 \<and>
              pid e = process_pid pf \<and> cwd e = process_cwd pf) \<and>
         (\<forall>j. j \<noteq> i \<longrightarrow> arr_get (entries (snd (start pf i nm p))) j = arr_get (entries p) j) \<and>
         startTime (snd (start pf i nm p)) = startTime p \<and>
         outputFolder (snd (start pf i nm p)) = outputFolder p \<and>
         endTime (snd (start pf i nm p)) = endTime p))"
  by (simp add: start_def arr_get_def arr_set_def hrtimeToMicroSeconds_def hr_nanos_def)

text \<open>
  A second start of id 1 throws; a first start throws the parser's error under a broken
  manifest and succeeds under a good one.
\<close>

theorem start_duplicate_or_records_witness:
  "start (node (6, 0)) 1 ''again'' building
     = (Inl unexpected_state, building) \<and>
   start (node_broken (5, 100)) 1 ''build'' fresh
     = (Inl SyntaxError, fresh) \<and>
   fst (start (node_named (5, 100)) 1 ''build'' fresh) = Inr () \<and>
   map_option state (arr_get (entries (snd (start (node_named (5, 100)) 1 ''build''
       fresh))) 1) = Some running"
proof -
  obtain e where dup: "arr_get (entries building) 1 = Some e"
    by (simp add: profiler_defs example_defs)
  have fresh: "arr_get (entries fresh) 1 = None"
    by (simp add: fresh_def new_Profiler_def empty_array_def arr_get_def)
  have broken: "read_packageName (node_broken (5, 100)) (process_cwd (node_broken (5, 100)))
                  = Inl SyntaxError"
    by (simp add: read_packageName_def example_defs)
  have named: "read_packageName (node_named (5, 100)) (process_cwd (node_named (5, 100)))
                  = Inr (Some (JStr ''just''))"
    by (simp add: read_packageName_def example_defs)
  from start_duplicate_or_records [of building 1 "node (6, 0)" "''again''"] dup
  have a: "start (node (6, 0)) 1 ''again'' building = (Inl unexpected_state, building)"
    by blast
  from start_duplicate_or_records [of fresh 1 "node_broken (5, 100)" "''build''"] fresh broken
  have b: "start (node_broken (5, 100)) 1 ''build'' fresh = (Inl SyntaxError, fresh)"
    by blast
  from start_duplicate_or_records [of fresh 1 "node_named (5, 100)" "''build''"] fresh named
  have c: "fst (start (node_named (5, 100)) 1 ''build'' fresh) = Inr () \<and>
           (\<exists>e. arr_get (entries (snd (start (node_named (5, 100)) 1 ''build'' fresh))) 1 = Some e
                \<and> state e = running)"
    by blast
  from a b c show ?thesis by auto
qed

text \<open>
  The claim as written, that a start of an id without an entry always succeeds, fails where
  the manifest does not parse: the profiler has no entry under id 1 and the call throws.
\<close>

theorem start_succeeds_counterexample:
  "arr_get (entries fresh) 1 = None \<and>
   start (node_broken (5, 100)) 1 ''build'' fresh
     = (Inl SyntaxError, fresh)"
  by (simp add: profiler_defs example_defs)


text \<open>
  Claim C9, as amended. When \<open>package.json\<close> exists in the working directory and its
  contents do not parse, \<open>start(id, name)\<close> for an id without an entry hands the parser's
  error to the caller; for an id that has an entry the check of line 62 comes first and the
  unexpected-state error is thrown instead. In both cases no entry is recorded and the
  profiler is as it was.
\<close>

theorem start_broken_manifest:
  assumes "existsSync pf (path_join pf (process_cwd pf) ''package.json'')"
    and "readFileSync pf (path_join pf (process_cwd pf) ''package.json'') = Inr contents"
    and "JSON_parse pf contents = Inl err"
  shows "(arr_get (entries p) i = None \<longrightarrow> start pf i nm p = (Inl err, p)) \<and>
         (arr_get (entries p) i \<noteq> None \<longrightarrow> start pf i nm p = (Inl unexpected_state, p))"
  using assms by (auto simp add: start_def read_packageName_def)

text \<open>Both cases under the platform with the broken manifest.\<close>

theorem start_broken_manifest_witness:
  "start (node_broken (5, 100)) 1 ''build'' fresh = (Inl SyntaxError, fresh) \<and>
   start (node_broken (6, 0)) 1 ''again'' building = (Inl unexpected_state, building)"
proof -
  have ex: "existsSync (node_broken t) (path_join (node_broken t) (process_cwd (node_broken t)) ''package.json'')"
    for t by (simp add: example_defs)
  have rd: "readFileSync (node_broken t) (path_join (node_broken t) (process_cwd (node_broken t)) ''package.json'') = Inr ''{name:''"
    for t by (simp add: example_defs)
  have pa: "JSON_parse (node_broken t) ''{name:'' = Inl SyntaxError"
    for t by (simp add: example_defs)
  have fresh: "arr_get (entries fresh) 1 = None"
    by (simp add: fresh_def new_Profiler_def empty_array_def arr_get_def)
  have dup: "arr_get (entries building) 1 \<noteq> None"
    by (simp add: profiler_defs example_defs)
  from start_broken_manifest [OF ex rd pa, where p = fresh and i = 1 and nm = "''build''"] fresh
  have a: "start (node_broken (5, 100)) 1 ''build'' fresh = (Inl SyntaxError, fresh)"
    by blast
  from start_broken_manifest [OF ex rd pa, where p = building and i = 1 and nm = "''again''"] dup
  have b: "start (node_broken (6, 0)) 1 ''again'' building = (Inl unexpected_state, building)"
    by blast
  from a b show ?thesis by simp
qed

text \<open>
  The claim as written, that the parse error is what the caller gets, fails for an id that
  was started before: the manifest is there and does not parse, and the error thrown is the
  unexpected-state error.
\<close>

theorem start_broken_manifest_counterexample:
  "existsSync (node_broken (6, 0))
     (path_join (node_broken (6, 0)) (process_cwd (node_broken (6, 0))) ''package.json'') \<and>
   readFileSync (node_broken (6, 0))
     (path_join (node_broken (6, 0)) (process_cwd (node_broken (6, 0))) ''package.json'')
     = Inr ''{name:'' \<and>
   JSON_parse (node_broken (6, 0)) ''{name:'' = Inl SyntaxError \<and>
   fst (start (node_broken (6, 0)) 1 ''again'' building) = Inl unexpected_state \<and>
   unexpected_state \<noteq> SyntaxError"
  by (simp add: profiler_defs example_defs unexpected_state_def)

subsection \<open>A second stop\<close>

text \<open>
  Claim C10. A second \<open>stop\<close> of an id does not throw. It leaves the profiler exactly as
  the second stop alone would have left it: the entry's state follows the second flag and
  its duration is measured from the start reading stored by \<open>start\<close> to the clock at the
  second stop. So only the last stop of an id shows in what is written later.
\<close>

theorem stop_again_overwrites:
  assumes "arr_get (entries p) i = Some e"
  shows "fst (stop pf2 i success2 (snd (stop pf1 i success1 p))) = Inr () \<and>
         stop pf2 i success2 (snd (stop pf1 i success1 p)) = stop pf2 i success2 p \<and>
         arr_get (entries (snd (stop pf2 i success2 (snd (stop pf1 i success1 p))))) i =
           Some (e\<lparr>state := (if success2 then succeeded else failed),
                   dur := Some (of_int (hr_nanos (process_hrtime pf2) - hr_nanos (startTime_e e))
                                / 1000)\<rparr>)"
  using assms by (simp add: stop_def arr_get_def hrtime_since_micro)

text \<open>Id 1 started at 5 s + 100 ns, stopped as succeeded at 7 s + 50 ns and again as failed at 9 s.\<close>

theorem stop_again_overwrites_witness:
  "fst (stop (node (9, 0)) 1 False (snd (stop (node (7, 50)) 1 True building))) = Inr () \<and>
   map_option state (arr_get (entries
       (snd (stop (node (9, 0)) 1 False (snd (stop (node (7, 50)) 1 True building))))) 1)
     = Some failed \<and>
   map_option dur (arr_get (entries
       (snd (stop (node (9, 0)) 1 False (snd (stop (node (7, 50)) 1 True building))))) 1)
     = Some (Some (39999999 / 10))"
proof -
  obtain e where e: "arr_get (entries building) 1 = Some e" and st: "startTime_e e = (5, 100)"
    by (simp add: profiler_defs example_defs)
  have clk: "process_hrtime (node (9, 0)) = (9, 0)"
    by (simp add: node_def)
  note twice = stop_again_overwrites [OF e, of "node (9, 0)" False "node (7, 50)" True]
  from twice [THEN conjunct1] twice [THEN conjunct2, THEN conjunct2]
  show ?thesis
    by (simp add: st hr_nanos_def clk)
qed

subsection \<open>The file name\<close>

text \<open>No call touches the session start, the output folder or the end time.\<close>

lemma exec_static:
  "startTime (snd (exec c p)) = startTime p \<and> outputFolder (snd (exec c p)) = outputFolder p
   \<and> endTime (snd (exec c p)) = endTime p"
proof (cases c)
  case (Pair pf call)
  then show ?thesis
    by (cases call) (simp_all add: start_def stop_def split: option.splits sum.splits)
qed

lemma run_static:
  "startTime (snd (run cs p)) = startTime p \<and> outputFolder (snd (run cs p)) = outputFolder p
   \<and> endTime (snd (run cs p)) = endTime p"
proof (induction cs arbitrary: p)
  case Nil
  show ?case by simp
next
  case (Cons c cs)
  obtain r p' where ex: "exec c p = (r, p')" by fastforce
  from exec_static [of c p] ex
  have st: "startTime p' = startTime p \<and> outputFolder p' = outputFolder p \<and> endTime p' = endTime p"
    by simp
  show ?case
  proof (cases r)
    case (Inl e)
    with ex st show ?thesis by simp
  next
    case (Inr u)
    with ex st Cons.IH [of p'] show ?thesis by simp
  qed
qed

lemma strip_separators_set:
  "set (strip_separators s) = set s - {CHR ''-'', CHR '':''}"
  by (auto simp add: strip_separators_def)

text \<open>
  Claim C6. After any sequence of calls on a profiler constructed with an optional folder,
  \<open>write\<close> hands \<open>outputJsonSync\<close> the path that joins the output folder with
  \<open>just-tasks-Profile-\<close>, the end time's \<open>toJSON\<close> text without its \<open>-\<close> and \<open>:\<close>
  separators, and \<open>.json\<close>. The output folder is the one given to the constructor, or the
  working directory at construction when none (or an empty one) was given. The end time is
  the time of the \<open>write\<close>.
\<close>

theorem write_file_name:
  "fst (snd (write pf (snd (run cs (new_Profiler pf0 folder))))) =
     path_join pf
       (case folder of None \<Rightarrow> process_cwd pf0
        | Some f \<Rightarrow> if f = [] then process_cwd pf0 else f)
       (''just-tasks-Profile-'' @ strip_separators (toJSON pf (new_Date pf)) @ ''.json'') \<and>
   set (strip_separators (toJSON pf (new_Date pf))) = set (toJSON pf (new_Date pf)) - {CHR ''-'', CHR '':''} \<and>
   endTime (fst (write pf (snd (run cs (new_Profiler pf0 folder))))) = Some (new_Date pf)"
proof -
  have "outputFolder (snd (run cs (new_Profiler pf0 folder))) =
          (case folder of None \<Rightarrow> process_cwd pf0
           | Some f \<Rightarrow> if f = [] then process_cwd pf0 else f)"
    using run_static [of cs "new_Profiler pf0 folder"] by (simp add: new_Profiler_def)
  then show ?thesis
    by (simp add: write_def Let_def strip_separators_set)
qed

text \<open>With no folder the file goes to \<open>/repo\<close>, the working directory; with \<open>/out\<close> given, there.\<close>

theorem write_file_name_witness:
  "fst (snd (write (node (9, 0)) (snd (run [(node (5, 100), Start 1 ''build''), (node (7, 50), Stop 1 True)]
      (new_Profiler (node (0, 0)) None))))) = ''/repo/just-tasks-Profile-20190501T123456.789Z.json'' \<and>
   fst (snd (write (node (9, 0)) (snd (run [] (new_Profiler (node (0, 0)) (Some ''/out'')))))) =
     ''/out/just-tasks-Profile-20190501T123456.789Z.json''"
  using write_file_name [of "node (9, 0)" "[(node (5, 100), Start 1 ''build''), (node (7, 50), Stop 1 True)]" "node (0, 0)" None]
    write_file_name [of "node (9, 0)" "[]" "node (0, 0)" "Some ''/out''"]
  by (simp add: node_def strip_separators_def)


subsection \<open>The two scenarios\<close>

lemma start_fresh_Inr:
  assumes "start pf i nm (new_Profiler pf0 folder) = (Inr (), p)"
  shows "\<exists>pkg. read_packageName pf (process_cwd pf) = Inr pkg \<and>
           entries p = arr_set empty_array i
             \<lparr>name = nm, ph = X, ts = hrtimeToMicroSeconds (process_hrtime pf),
              pid = process_pid pf, tid = i, dur = None, id_e = i, cwd = process_cwd pf,
              packageName = pkg, state = running, startTime_e = process_hrtime pf\<rparr>"
  using assms
  by (auto simp add: start_def new_Profiler_def arr_get_def empty_array_def split: sum.splits)

lemma upt_3: "[0..<3] = [0, 1, 2]"
  by (simp add: upt_rec)

lemma upt_2: "[0..<2] = [0, 1]"
  by (simp add: upt_rec)

text \<open>
  Claim C7. When \<open>start(2, "lint")\<close> on a new profiler has returned and \<open>write\<close> follows with
  no \<open>stop\<close> between, the trace events are two holes and, at index 2, the entry of id 2 with
  state \<open>running\<close> and no \<open>dur\<close> member.
\<close>

theorem running_entry_written:
  assumes "start pf 2 ''lint'' (new_Profiler pf0 folder) = (Inr (), p)"
  shows "length (traceEvents (snd (snd (write pfw p)))) = 3 \<and>
         traceEvents (snd (snd (write pfw p))) ! 0 = JNull \<and>
         traceEvents (snd (snd (write pfw p))) ! 1 = JNull \<and>
         field ''id'' (traceEvents (snd (snd (write pfw p))) ! 2) = Some (JNum 2) \<and>
         field ''tid'' (traceEvents (snd (snd (write pfw p))) ! 2) = Some (JNum 2) \<and>
         field ''name'' (traceEvents (snd (snd (write pfw p))) ! 2) = Some (JStr ''lint'') \<and>
         field ''state'' (traceEvents (snd (snd (write pfw p))) ! 2) = Some (JStr ''running'') \<and>
         field ''dur'' (traceEvents (snd (snd (write pfw p))) ! 2) = None"
proof -
  from start_fresh_Inr [OF assms] obtain pkg where
    ent: "entries p = arr_set empty_array 2
             \<lparr>name = ''lint'', ph = X, ts = hrtimeToMicroSeconds (process_hrtime pf),
              pid = process_pid pf, tid = 2, dur = None, id_e = 2, cwd = process_cwd pf,
              packageName = pkg, state = running, startTime_e = process_hrtime pf\<rparr>"
    by blast
  have evs: "traceEvents (snd (snd (write pfw p))) =
     [JNull, JNull, entry_json
             \<lparr>name = ''lint'', ph = X, ts = hrtimeToMicroSeconds (process_hrtime pf),
              pid = process_pid pf, tid = 2, dur = None, id_e = 2, cwd = process_cwd pf,
              packageName = pkg, state = running, startTime_e = process_hrtime pf\<rparr>]"
    by (simp add: traceEvents_write ent arr_elems_def arr_set_def empty_array_def
        is_array_index_def upt_3 element_json_def)
  show ?thesis
    by (simp add: evs field_entry_json state_name_def)
qed

text \<open>The scenario on the example platform.\<close>

theorem running_entry_written_witness:
  "field ''state'' (traceEvents (snd (snd (write (node (9, 0))
       (snd (start (node (5, 100)) 2 ''lint'' fresh))))) ! 2) = Some (JStr ''running'') \<and>
   field ''dur'' (traceEvents (snd (snd (write (node (9, 0))
       (snd (start (node (5, 100)) 2 ''lint'' fresh))))) ! 2) = None"
proof -
  have "fst (start (node (5, 100)) 2 ''lint'' fresh) = Inr ()"
    by (simp add: profiler_defs example_defs)
  then have "start (node (5, 100)) 2 ''lint'' (new_Profiler (node (0, 0)) None)
           = (Inr (), snd (start (node (5, 100)) 2 ''lint'' fresh))"
    by (simp add: fresh_def prod_eq_iff)
  from running_entry_written [OF this, of "node (9, 0)"] show ?thesis
    by simp
qed

text \<open>
  Claim C4, as amended. After \<open>start(1, "build")\<close> on a new profiler, \<open>stop(1, true)\<close> and
  \<open>write\<close>, the trace events are a hole at index 0 and, at index 1, the entry with name
  \<open>build\<close>, \<open>ph\<close> equal to \<open>X\<close> and state \<open>succeeded\<close>.
\<close>

theorem build_scenario:
  assumes "start pf1 1 ''build'' (new_Profiler pf0 folder) = (Inr (), p1)"
  shows "fst (stop pf2 1 True p1) = Inr () \<and>
         length (traceEvents (snd (snd (write pfw (snd (stop pf2 1 True p1)))))) = 2 \<and>
         traceEvents (snd (snd (write pfw (snd (stop pf2 1 True p1))))) ! 0 = JNull \<and>
         field ''name'' (traceEvents (snd (snd (write pfw (snd (stop pf2 1 True p1))))) ! 1)
           = Some (JStr ''build'') \<and>
         field ''ph'' (traceEvents (snd (snd (write pfw (snd (stop pf2 1 True p1))))) ! 1)
           = Some (JStr ''X'') \<and>
         field ''state'' (traceEvents (snd (snd (write pfw (snd (stop pf2 1 True p1))))) ! 1)
           = Some (JStr ''succeeded'')"
proof -
  from start_fresh_Inr [OF assms] obtain pkg where
    ent: "entries p1 = arr_set empty_array 1
             \<lparr>name = ''build'', ph = X, ts = hrtimeToMicroSeconds (process_hrtime pf1),
              pid = process_pid pf1, tid = 1, dur = None, id_e = 1, cwd = process_cwd pf1,
              packageName = pkg, state = running, startTime_e = process_hrtime pf1\<rparr>"
    by blast
  have ok: "fst (stop pf2 1 True p1) = Inr ()"
    by (simp add: stop_def ent arr_get_def arr_set_def)
  have evs: "traceEvents (snd (snd (write pfw (snd (stop pf2 1 True p1))))) =
     [JNull, entry_json
             \<lparr>name = ''build'', ph = X, ts = hrtimeToMicroSeconds (process_hrtime pf1),
              pid = process_pid pf1, tid = 1,
              dur = Some (hrtimeToMicroSeconds (process_hrtime_since pf2 (process_hrtime pf1))),
              id_e = 1, cwd = process_cwd pf1,
              packageName = pkg, state = succeeded, startTime_e = process_hrtime pf1\<rparr>]"
    by (simp add: traceEvents_write stop_def ent arr_get_def arr_elems_def arr_set_def
        empty_array_def is_array_index_def upt_2 element_json_def)
  from ok show ?thesis
    by (simp add: evs field_entry_json state_name_def)
qed

text \<open>The scenario on the example platform.\<close>

theorem build_scenario_witness:
  "traceEvents (snd (snd (write (node (9, 0)) (snd (stop (node (7, 50)) 1 True building))))) ! 0
     = JNull \<and>
   field ''name'' (traceEvents (snd (snd (write (node (9, 0))
       (snd (stop (node (7, 50)) 1 True building))))) ! 1) = Some (JStr ''build'') \<and>
   field ''state'' (traceEvents (snd (snd (write (node (9, 0))
       (snd (stop (node (7, 50)) 1 True building))))) ! 1) = Some (JStr ''succeeded'')"
proof -
  have "fst (start (node (5, 100)) 1 ''build'' fresh) = Inr ()"
    by (simp add: profiler_defs example_defs)
  then have "start (node (5, 100)) 1 ''build'' (new_Profiler (node (0, 0)) None)
           = (Inr (), building)"
    by (simp add: fresh_def building_def prod_eq_iff)
  from build_scenario [OF this, of "node (7, 50)" "node (9, 0)"] show ?thesis
    by simp
qed

text \<open>
  The claim as written looks at index 0. There the array has a hole, written as \<open>null\<close>,
  which has no name.
\<close>

theorem build_scenario_counterexample:
  "fst (start (node (5, 100)) 1 ''build'' fresh) = Inr () \<and>
   fst (stop (node (7, 50)) 1 True building) = Inr () \<and>
   traceEvents (snd (snd (write (node (9, 0)) (snd (stop (node (7, 50)) 1 True building))))) ! 0
     = JNull \<and>
   field ''name'' (traceEvents (snd (snd (write (node (9, 0))
       (snd (stop (node (7, 50)) 1 True building))))) ! 0) \<noteq> Some (JStr ''build'')"
  by (simp add: profiler_defs example_defs upt_2)

subsection \<open>Sequences of calls\<close>

text \<open>What one call that threw, and one that returned, did to the profiler.\<close>

lemma start_Inl: "start pf i nm p = (Inl err, p') \<Longrightarrow> p' = p"
  by (auto simp add: start_def split: option.splits sum.splits)

lemma stop_Inl: "stop pf i success p = (Inl err, p') \<Longrightarrow> p' = p"
  by (auto simp add: stop_def split: option.splits)

lemma start_Inr:
  assumes "start pf i nm p = (Inr (), p')"
  shows "props (entries p) i = None \<and>
    (\<exists>e. props (entries p') = (props (entries p))(i \<mapsto> e) \<and>
         length_a (entries p') =
           (if is_array_index i then max (length_a (entries p)) (nat i + 1)
            else length_a (entries p)) \<and>
         name e = nm \<and> tid e = i \<and> id_e e = i \<and> dur e = None \<and> state e = running \<and>
         startTime_e e = process_hrtime pf \<and>
         ts e = hrtimeToMicroSeconds (process_hrtime pf) \<and>
         pid e = process_pid pf \<and> cwd e = process_cwd pf \<and>
         read_packageName pf (process_cwd pf) = Inr (packageName e))"
  using assms
  by (auto simp add: start_def arr_get_def arr_set_def split: option.splits sum.splits)

lemma stop_Inr:
  assumes "stop pf i success p = (Inr (), p')"
  shows "\<exists>e. props (entries p) i = Some e \<and>
     props (entries p') = (props (entries p))
       (i \<mapsto> e\<lparr>state := (if success then succeeded else failed),
                dur := Some (of_int (hr_nanos (process_hrtime pf) - hr_nanos (startTime_e e))
                             / 1000)\<rparr>) \<and>
     length_a (entries p') = length_a (entries p)"
  using assms
  by (auto simp add: stop_def arr_get_def hrtime_since_micro split: option.splits)

lemma well_formed_empty: "well_formed empty_array"
  by (simp add: well_formed_def empty_array_def)

lemma well_formed_start:
  assumes "well_formed (entries p)"
  shows "well_formed (entries (snd (start pf i nm p)))"
proof (cases "start pf i nm p")
  case (Pair r p')
  show ?thesis
  proof (cases r)
    case (Inl err)
    with Pair start_Inl assms show ?thesis by fastforce
  next
    case (Inr u)
    with Pair have "start pf i nm p = (Inr (), p')" by simp
    from start_Inr [OF this] assms have "well_formed (entries p')"
      unfolding well_formed_def by (auto split: if_splits simp add: less_max_iff_disj)
    with Pair show ?thesis by simp
  qed
qed

lemma well_formed_stop:
  assumes "well_formed (entries p)"
  shows "well_formed (entries (snd (stop pf i success p)))"
proof (cases "stop pf i success p")
  case (Pair r p')
  show ?thesis
  proof (cases r)
    case (Inl err)
    with Pair stop_Inl assms show ?thesis by fastforce
  next
    case (Inr u)
    with Pair have "stop pf i success p = (Inr (), p')" by simp
    from stop_Inr [OF this] assms have "well_formed (entries p')"
      unfolding well_formed_def by (auto split: if_splits)
    with Pair show ?thesis by simp
  qed
qed

lemma well_formed_exec:
  "well_formed (entries p) \<Longrightarrow> well_formed (entries (snd (exec c p)))"
proof (cases c)
  case (Pair pf call)
  assume "well_formed (entries p)"
  with Pair show ?thesis
    by (cases call) (simp_all add: well_formed_start well_formed_stop)
qed

lemma well_formed_run:
  "well_formed (entries p) \<Longrightarrow> well_formed (entries (snd (run cs p)))"
proof (induction cs arbitrary: p)
  case Nil
  then show ?case by simp
next
  case (Cons c cs)
  obtain r p' where ex: "exec c p = (r, p')" by fastforce
  from well_formed_exec [OF Cons.prems, of c] ex have wf: "well_formed (entries p')" by simp
  show ?case
  proof (cases r)
    case (Inl e)
    with ex wf show ?thesis by simp
  next
    case (Inr u)
    with ex Cons.IH [OF wf] show ?thesis by simp
  qed
qed

lemma well_formed_reachable:
  "well_formed (entries (snd (run cs (new_Profiler pf0 folder))))"
  by (rule well_formed_run) (simp add: new_Profiler_def well_formed_empty)

lemma run_Cons_Inr:
  assumes "run (c # cs) p = (Inr (), p')"
  obtains p1 where "exec c p = (Inr (), p1)" and "run cs p1 = (Inr (), p')"
  using assms by (auto split: prod.splits sum.splits)

text \<open>Keys: after a sequence without exception the keys are the old ones and the started ids.\<close>

lemma run_dom:
  "run cs p = (Inr (), p') \<Longrightarrow>
     dom (props (entries p')) = dom (props (entries p)) \<union> set (started_ids cs)"
proof (induction cs arbitrary: p)
  case Nil
  then show ?case by simp
next
  case (Cons c cs)
  from Cons.prems obtain p1 where ex: "exec c p = (Inr (), p1)" and rest: "run cs p1 = (Inr (), p')"
    by (rule run_Cons_Inr)
  note IH = Cons.IH [OF rest]
  obtain pf call where c: "c = (pf, call)" by fastforce
  show ?case
  proof (cases call)
    case (Start i nm)
    with ex c have "start pf i nm p = (Inr (), p1)" by simp
    from start_Inr [OF this] have "dom (props (entries p1)) = insert i (dom (props (entries p)))"
      by auto
    with IH c Start show ?thesis by auto
  next
    case (Stop i success)
    with ex c have "stop pf i success p = (Inr (), p1)" by simp
    from stop_Inr [OF this] have "dom (props (entries p1)) = dom (props (entries p))"
      by (auto split: if_splits)
    with IH c Stop show ?thesis by auto
  qed
qed

lemma run_distinct:
  "run cs p = (Inr (), p') \<Longrightarrow>
     distinct (started_ids cs) \<and> set (started_ids cs) \<inter> dom (props (entries p)) = {}"
proof (induction cs arbitrary: p)
  case Nil
  then show ?case by simp
next
  case (Cons c cs)
  from Cons.prems obtain p1 where ex: "exec c p = (Inr (), p1)" and rest: "run cs p1 = (Inr (), p')"
    by (rule run_Cons_Inr)
  note IH = Cons.IH [OF rest]
  obtain pf call where c: "c = (pf, call)" by fastforce
  show ?case
  proof (cases call)
    case (Start i nm)
    with ex c have "start pf i nm p = (Inr (), p1)" by simp
    from start_Inr [OF this] have "dom (props (entries p1)) = insert i (dom (props (entries p)))"
      and "i \<notin> dom (props (entries p))"
      by auto
    with IH c Start show ?thesis by auto
  next
    case (Stop i success)
    with ex c have "stop pf i success p = (Inr (), p1)" by simp
    from stop_Inr [OF this] have "dom (props (entries p1)) = dom (props (entries p))"
      by (auto split: if_splits)
    with IH c Stop show ?thesis by auto
  qed
qed

text \<open>Length: it never shrinks, and it grows only to a started array index plus one.\<close>

lemma run_length:
  "run cs p = (Inr (), p') \<Longrightarrow>
     length_a (entries p') = length_a (entries p) \<or>
     (\<exists>i \<in> set (started_ids cs). is_array_index i \<and> length_a (entries p') = nat i + 1)"
proof (induction cs arbitrary: p)
  case Nil
  then show ?case by simp
next
  case (Cons c cs)
  from Cons.prems obtain p1 where ex: "exec c p = (Inr (), p1)" and rest: "run cs p1 = (Inr (), p')"
    by (rule run_Cons_Inr)
  note IH = Cons.IH [OF rest]
  obtain pf call where c: "c = (pf, call)" by fastforce
  show ?case
  proof (cases call)
    case (Start i nm)
    with ex c have "start pf i nm p = (Inr (), p1)" by simp
    from start_Inr [OF this] have
      "length_a (entries p1) = length_a (entries p) \<or>
       (is_array_index i \<and> length_a (entries p1) = nat i + 1)"
      by (auto simp add: max_def split: if_splits)
    with IH c Start show ?thesis by auto
  next
    case (Stop i success)
    with ex c have "stop pf i success p = (Inr (), p1)" by simp
    from stop_Inr [OF this] have "length_a (entries p1) = length_a (entries p)"
      by auto
    with IH c Stop show ?thesis by auto
  qed
qed

text \<open>An entry keeps everything but its state and duration.\<close>

lemma exec_keeps:
  assumes "props (entries p) i = Some e"
  shows "\<exists>e'. props (entries (snd (exec c p))) i = Some e' \<and>
              e' = e\<lparr>state := state e', dur := dur e'\<rparr>"
proof -
  obtain pf call where c: "c = (pf, call)" by fastforce
  show ?thesis
  proof (cases call)
    case (Start j nm)
    with c assms show ?thesis
      by (auto simp add: start_def arr_get_def arr_set_def split: option.splits sum.splits)
  next
    case (Stop j success)
    with c assms show ?thesis
      by (auto simp add: stop_def arr_get_def split: option.splits)
  qed
qed

lemma run_keeps:
  "props (entries p) i = Some e \<Longrightarrow>
     \<exists>e'. props (entries (snd (run cs p))) i = Some e' \<and>
          e' = e\<lparr>state := state e', dur := dur e'\<rparr>"
proof (induction cs arbitrary: p e)
  case Nil
  then show ?case by simp
next
  case (Cons c cs)
  obtain r p1 where ex: "exec c p = (r, p1)" by fastforce
  from exec_keeps [OF Cons.prems, of c] ex obtain e1 where
    e1: "props (entries p1) i = Some e1" and k1: "e1 = e\<lparr>state := state e1, dur := dur e1\<rparr>"
    by auto
  show ?case
  proof (cases r)
    case (Inl err)
    with ex e1 k1 show ?thesis by simp
  next
    case (Inr u)
    from Cons.IH [OF e1] obtain e' where
      e': "props (entries (snd (run cs p1))) i = Some e'"
      and k': "e' = e1\<lparr>state := state e', dur := dur e'\<rparr>"
      by blast
    from k1 k' have "e' = e\<lparr>state := state e', dur := dur e'\<rparr>"
      by (metis ProfileEntry.surjective ProfileEntry.update_convs(6) ProfileEntry.update_convs(10))
    with ex Inr e' show ?thesis by simp
  qed
qed

lemma keeps_fields:
  "e' = e\<lparr>state := s, dur := d\<rparr> \<Longrightarrow>
     name e' = name e \<and> ts e' = ts e \<and> pid e' = pid e \<and> tid e' = tid e \<and>
     id_e e' = id_e e \<and> cwd e' = cwd e \<and> packageName e' = packageName e \<and>
     startTime_e e' = startTime_e e"
  by simp

text \<open>What a start recorded is still there at the end.\<close>

lemma run_started:
  "run cs p = (Inr (), p') \<Longrightarrow> (pf, Start i nm) \<in> set cs \<Longrightarrow>
     \<exists>e. props (entries p') i = Some e \<and> name e = nm \<and>
         startTime_e e = process_hrtime pf \<and> cwd e = process_cwd pf \<and>
         pid e = process_pid pf \<and>
         read_packageName pf (process_cwd pf) = Inr (packageName e)"
proof (induction cs arbitrary: p)
  case Nil
  then show ?case by simp
next
  case (Cons c cs)
  from Cons.prems(1) obtain p1 where ex: "exec c p = (Inr (), p1)"
    and rest: "run cs p1 = (Inr (), p')"
    by (rule run_Cons_Inr)
  show ?case
  proof (cases "c = (pf, Start i nm)")
    case True
    with ex have "start pf i nm p = (Inr (), p1)" by simp
    from start_Inr [OF this] obtain e where e: "props (entries p1) i = Some e"
      and f: "name e = nm" "startTime_e e = process_hrtime pf" "cwd e = process_cwd pf"
        "pid e = process_pid pf" "read_packageName pf (process_cwd pf) = Inr (packageName e)"
      by auto
    from run_keeps [OF e, of cs] rest obtain e' where e': "props (entries p') i = Some e'"
      and k: "e' = e\<lparr>state := state e', dur := dur e'\<rparr>"
      by auto
    from keeps_fields [OF k] f e' show ?thesis by simp
  next
    case False
    with Cons.prems(2) have "(pf, Start i nm) \<in> set cs" by simp
    from Cons.IH [OF rest this] show ?thesis .
  qed
qed

text \<open>Without a stop of its id an entry stays as it is.\<close>

lemma run_unstopped:
  "props (entries p) i = Some e \<Longrightarrow> stop_flags i cs = [] \<Longrightarrow> run cs p = (Inr (), p') \<Longrightarrow>
     props (entries p') i = Some e"
proof (induction cs arbitrary: p)
  case Nil
  then show ?case by simp
next
  case (Cons c cs)
  from Cons.prems(3) obtain p1 where ex: "exec c p = (Inr (), p1)"
    and rest: "run cs p1 = (Inr (), p')"
    by (rule run_Cons_Inr)
  obtain pf call where c: "c = (pf, call)" by fastforce
  have "props (entries p1) i = Some e \<and> stop_flags i cs = []"
  proof (cases call)
    case (Start j nm)
    with ex c have "start pf j nm p = (Inr (), p1)" by simp
    from start_Inr [OF this] Cons.prems(1,2) c Start show ?thesis by auto
  next
    case (Stop j success)
    with ex c have "stop pf j success p = (Inr (), p1)" by simp
    from stop_Inr [OF this] Cons.prems(1,2) c Stop show ?thesis
      by (auto split: if_splits)
  qed
  with Cons.IH rest show ?case by blast
qed

text \<open>With one stop of its id, after the start reading, an entry ends stopped.\<close>

lemma run_stopped:
  "props (entries p) i = Some e \<Longrightarrow> stop_flags i cs = [b] \<Longrightarrow> run cs p = (Inr (), p') \<Longrightarrow>
   (\<forall>c \<in> set cs. hr_nanos (startTime_e e) \<le> hr_nanos (process_hrtime (fst c))) \<Longrightarrow>
     \<exists>e' d. props (entries p') i = Some e' \<and>
            state e' = (if b then succeeded else failed) \<and> dur e' = Some d \<and> 0 \<le> d"
proof (induction cs arbitrary: p)
  case Nil
  then show ?case by simp
next
  case (Cons c cs)
  from Cons.prems(3) obtain p1 where ex: "exec c p = (Inr (), p1)"
    and rest: "run cs p1 = (Inr (), p')"
    by (rule run_Cons_Inr)
  from Cons.prems(4) have later: "\<forall>c \<in> set cs. hr_nanos (startTime_e e) \<le> hr_nanos (process_hrtime (fst c))"
    and now: "hr_nanos (startTime_e e) \<le> hr_nanos (process_hrtime (fst c))"
    by simp_all
  obtain pf call where c: "c = (pf, call)" by fastforce
  show ?case
  proof (cases call)
    case (Start j nm)
    with ex c have "start pf j nm p = (Inr (), p1)" by simp
    from start_Inr [OF this] Cons.prems(1,2) c Start
    have "props (entries p1) i = Some e" "stop_flags i cs = [b]" by auto
    from Cons.IH [OF this rest later] show ?thesis .
  next
    case (Stop j success)
    with ex c have st: "stop pf j success p = (Inr (), p1)" by simp
    show ?thesis
    proof (cases "j = i")
      case True
      with Cons.prems(2) c Stop have b: "success = b" and none: "stop_flags i cs = []"
        by simp_all
      let ?d = "of_int (hr_nanos (process_hrtime pf) - hr_nanos (startTime_e e)) / (1000::rat)"
      let ?e1 = "e\<lparr>state := (if b then succeeded else failed), dur := Some ?d\<rparr>"
      from stop_Inr [OF st] Cons.prems(1) True b have "props (entries p1) i = Some ?e1"
        by auto
      from run_unstopped [OF this none rest] have "props (entries p') i = Some ?e1" .
      moreover have "state ?e1 = (if b then succeeded else failed)" "dur ?e1 = Some ?d"
        by simp_all
      moreover from now c have "0 \<le> ?d"
        by simp
      ultimately show ?thesis by blast
    next
      case False
      from stop_Inr [OF st] Cons.prems(1,2) c Stop False
      have "props (entries p1) i = Some e" "stop_flags i cs = [b]" by auto
      from Cons.IH [OF this rest later] show ?thesis .
    qed
  qed
qed

text \<open>Started and then stopped once, under a clock that does not run backwards.\<close>

lemma run_started_stopped:
  "props (entries p) i = None \<Longrightarrow> i \<in> set (started_ids cs) \<Longrightarrow> stop_flags i cs = [b] \<Longrightarrow>
   sorted (map (\<lambda>c. hr_nanos (process_hrtime (fst c))) cs) \<Longrightarrow> run cs p = (Inr (), p') \<Longrightarrow>
     \<exists>e' d. props (entries p') i = Some e' \<and>
            state e' = (if b then succeeded else failed) \<and> dur e' = Some d \<and> 0 \<le> d"
proof (induction cs arbitrary: p)
  case Nil
  then show ?case by simp
next
  case (Cons c cs)
  from Cons.prems(5) obtain p1 where ex: "exec c p = (Inr (), p1)"
    and rest: "run cs p1 = (Inr (), p')"
    by (rule run_Cons_Inr)
  from Cons.prems(4) have sorted: "sorted (map (\<lambda>c. hr_nanos (process_hrtime (fst c))) cs)"
    and later: "\<forall>c' \<in> set cs. hr_nanos (process_hrtime (fst c)) \<le> hr_nanos (process_hrtime (fst c'))"
    by simp_all
  obtain pf call where c: "c = (pf, call)" by fastforce
  show ?case
  proof (cases call)
    case (Start j nm)
    with ex c have st: "start pf j nm p = (Inr (), p1)" by simp
    from Cons.prems(3) c Start have flags: "stop_flags i cs = [b]" by simp
    show ?thesis
    proof (cases "j = i")
      case True
      from start_Inr [OF st] True obtain e where e: "props (entries p1) i = Some e"
        and t: "startTime_e e = process_hrtime pf"
        by auto
      from later c t have "\<forall>c' \<in> set cs. hr_nanos (startTime_e e) \<le> hr_nanos (process_hrtime (fst c'))"
        by simp
      from run_stopped [OF e flags rest this] show ?thesis .
    next
      case False
      from start_Inr [OF st] Cons.prems(1) False have none: "props (entries p1) i = None"
        by auto
      from Cons.prems(2) c Start False have "i \<in> set (started_ids cs)" by simp
      from Cons.IH [OF none this flags sorted rest] show ?thesis .
    qed
  next
    case (Stop j success)
    with ex c have st: "stop pf j success p = (Inr (), p1)" by simp
    from stop_Inr [OF st] Cons.prems(1) have ne: "j \<noteq> i" by auto
    with stop_Inr [OF st] Cons.prems(1) have none: "props (entries p1) i = None"
      by auto
    from Cons.prems(2,3) c Stop ne have "i \<in> set (started_ids cs)" "stop_flags i cs = [b]"
      by simp_all
    from Cons.IH [OF none this sorted rest] show ?thesis .
  qed
qed

subsection \<open>What is written after a sequence of calls\<close>

text \<open>The trace events are the elements of the array, a hole written as \<open>null\<close>.\<close>

lemma length_traceEvents:
  "length (traceEvents (snd (snd (write pf p)))) = length_a (entries p)"
  by (simp add: traceEvents_write length_arr_elems)

lemma nth_traceEvents:
  "k < length_a (entries p) \<Longrightarrow>
     traceEvents (snd (snd (write pf p))) ! k = element_json (props (entries p) (int k))"
  by (simp add: traceEvents_write length_arr_elems nth_arr_elems)

lemma element_json_Null: "element_json x = JNull \<longleftrightarrow> x = None"
  by (simp add: element_json_def entry_json_def split: option.splits)

lemma reachable_dom:
  assumes "run cs (new_Profiler pf0 folder) = (Inr (), p)"
  shows "dom (props (entries p)) = set (started_ids cs)"
  using run_dom [OF assms] by (simp add: new_Profiler_def empty_array_def)

lemma reachable_below_length:
  assumes "run cs (new_Profiler pf0 folder) = (Inr (), p)"
    and "i \<in> set (started_ids cs)" and "is_array_index i"
  shows "nat i < length_a (entries p)"
proof -
  from reachable_dom [OF assms(1)] assms(2) obtain e where e: "props (entries p) i = Some e"
    by auto
  from well_formed_reachable [of cs pf0 folder] assms(1) have "well_formed (entries p)"
    by simp
  with e assms(3) show ?thesis
    unfolding well_formed_def by blast
qed

text \<open>As many events as started ids.\<close>

lemma count_written:
  assumes "run cs (new_Profiler pf0 folder) = (Inr (), p)"
    and "\<forall>i \<in> set (started_ids cs). is_array_index i"
  shows "length (filter (\<lambda>ev. ev \<noteq> JNull) (traceEvents (snd (snd (write pf p)))))
           = length (started_ids cs)"
proof -
  let ?n = "length_a (entries p)"
  let ?P = "\<lambda>k. props (entries p) (int k) \<noteq> None"
  have "length (filter (\<lambda>ev. ev \<noteq> JNull) (traceEvents (snd (snd (write pf p)))))
          = length (filter ?P [0..<?n])"
    by (simp add: traceEvents_write arr_elems_def filter_map o_def element_json_Null)
  also have "\<dots> = card (set (filter ?P [0..<?n]))"
    by (rule distinct_card [symmetric]) simp
  also have "set (filter ?P [0..<?n]) = nat ` set (started_ids cs)"
  proof (intro set_eqI iffI)
    fix k assume "k \<in> set (filter ?P [0..<?n])"
    then have "int k \<in> dom (props (entries p))" by auto
    with reachable_dom [OF assms(1)] have "int k \<in> set (started_ids cs)" by simp
    then have "nat (int k) \<in> nat ` set (started_ids cs)" by (rule imageI)
    then show "k \<in> nat ` set (started_ids cs)" by simp
  next
    fix k assume "k \<in> nat ` set (started_ids cs)"
    then obtain i where i: "i \<in> set (started_ids cs)" and k: "k = nat i" by auto
    from assms(2) i have idx: "is_array_index i" by simp
    then have nn: "int (nat i) = i" by (simp add: is_array_index_def)
    from reachable_below_length [OF assms(1) i idx] have "nat i < ?n" .
    moreover from reachable_dom [OF assms(1)] i have "props (entries p) i \<noteq> None" by auto
    ultimately show "k \<in> set (filter ?P [0..<?n])" using k nn by simp
  qed
  also have "card (nat ` set (started_ids cs)) = card (set (started_ids cs))"
  proof (rule card_image)
    from assms(2) have "\<forall>i \<in> set (started_ids cs). 0 \<le> i" by (simp add: is_array_index_def)
    then show "inj_on nat (set (started_ids cs))"
      by (intro inj_onI) (metis nat_0_le)
  qed
  also from run_distinct [OF assms(1)] have "\<dots> = length (started_ids cs)"
    by (simp add: distinct_card)
  finally show ?thesis .
qed

text \<open>The example sequence runs without exception.\<close>

lemma two_tasks_run:
  "run two_tasks (new_Profiler (node (0, 0)) None) = (Inr (), snd (run two_tasks fresh))"
proof -
  have "fst (run two_tasks fresh) = Inr ()"
    by (simp add: two_tasks_def profiler_defs example_defs)
  then show ?thesis
    by (simp add: fresh_def prod_eq_iff)
qed

lemma two_tasks_ids: "started_ids two_tasks = [1, 0]"
  by (simp add: two_tasks_def)

lemma two_tasks_flags: "stop_flags 1 two_tasks = [True]" "stop_flags 0 two_tasks = [False]"
  by (simp_all add: two_tasks_def)

lemma two_tasks_sorted: "sorted (map (\<lambda>c. hr_nanos (process_hrtime (fst c))) two_tasks)"
  by (simp add: two_tasks_def node_def hr_nanos_def)

text \<open>The length of the array after a sequence that started something.\<close>

lemma Start_started: "(pf, Start i nm) \<in> set cs \<Longrightarrow> i \<in> set (started_ids cs)"
  by (induction cs rule: started_ids.induct) auto

lemma reachable_length:
  assumes "run cs (new_Profiler pf0 folder) = (Inr (), p)"
    and "started_ids cs \<noteq> []"
    and "\<forall>i \<in> set (started_ids cs). is_array_index i"
  shows "length_a (entries p) = nat (Max (set (started_ids cs))) + 1"
proof -
  from assms(2) obtain j where j: "j \<in> set (started_ids cs)"
    by (cases "started_ids cs") auto
  from reachable_below_length [OF assms(1) j] assms(3) j have "0 < length_a (entries p)"
    by auto
  with run_length [OF assms(1)] obtain i where i: "i \<in> set (started_ids cs)"
    and len: "length_a (entries p) = nat i + 1"
    by (auto simp add: new_Profiler_def empty_array_def)
  have "Max (set (started_ids cs)) = i"
  proof (rule Max_eqI)
    show "finite (set (started_ids cs))" by simp
    show "i \<in> set (started_ids cs)" by (rule i)
  next
    fix y assume y: "y \<in> set (started_ids cs)"
    with assms(3) have "is_array_index y" by simp
    from assms(3) i have "0 \<le> i" by (simp add: is_array_index_def)
    with reachable_below_length [OF assms(1) y \<open>is_array_index y\<close>] len show "y \<le> i"
      by arith
  qed
  with len show ?thesis by simp
qed

text \<open>
  Claim C1, as amended. Take a sequence of calls on a new profiler in which no call
  throws, every started id is an array index and is stopped exactly once, and the monotonic
  clock does not run backwards from one call to the next. Then no id is started twice, the
  written trace events hold as many entries (elements other than \<open>null\<close>) as there are started ids, and
  for every started id the element at that index is its entry: \<open>tid\<close> is the id, \<open>state\<close> is
  \<open>succeeded\<close> when the flag of its stop was true and \<open>failed\<close> when it was false, and
  \<open>dur\<close> is present and not negative.
\<close>

theorem started_and_stopped_written:
  assumes "run cs (new_Profiler pf0 folder) = (Inr (), p)"
    and "\<forall>i \<in> set (started_ids cs). is_array_index i \<and> length (stop_flags i cs) = 1"
    and "sorted (map (\<lambda>c. hr_nanos (process_hrtime (fst c))) cs)"
  shows "distinct (started_ids cs) \<and>
    length (filter (\<lambda>ev. ev \<noteq> JNull) (traceEvents (snd (snd (write pf p)))))
      = length (started_ids cs) \<and>
    (\<forall>i \<in> set (started_ids cs).
       nat i < length (traceEvents (snd (snd (write pf p)))) \<and>
       field ''tid'' (traceEvents (snd (snd (write pf p))) ! nat i) = Some (JNum (of_int i)) \<and>
       field ''state'' (traceEvents (snd (snd (write pf p))) ! nat i)
         = Some (JStr (if hd (stop_flags i cs) then ''succeeded'' else ''failed'')) \<and>
       (\<exists>d. field ''dur'' (traceEvents (snd (snd (write pf p))) ! nat i) = Some (JNum d) \<and>
            0 \<le> d))"
proof -
  from run_distinct [OF assms(1)] have dist: "distinct (started_ids cs)" by simp
  from assms(2) have "\<forall>i \<in> set (started_ids cs). is_array_index i" by simp
  from count_written [OF assms(1) this]
  have count: "length (filter (\<lambda>ev. ev \<noteq> JNull) (traceEvents (snd (snd (write pf p)))))
      = length (started_ids cs)" .
  have each: "nat i < length (traceEvents (snd (snd (write pf p)))) \<and>
       field ''tid'' (traceEvents (snd (snd (write pf p))) ! nat i) = Some (JNum (of_int i)) \<and>
       field ''state'' (traceEvents (snd (snd (write pf p))) ! nat i)
         = Some (JStr (if hd (stop_flags i cs) then ''succeeded'' else ''failed'')) \<and>
       (\<exists>d. field ''dur'' (traceEvents (snd (snd (write pf p))) ! nat i) = Some (JNum d) \<and>
            0 \<le> d)"
    if i: "i \<in> set (started_ids cs)" for i
  proof -
    from i assms(2) have idx: "is_array_index i" and one: "length (stop_flags i cs) = 1"
      by simp_all
    from one have flags: "stop_flags i cs = [hd (stop_flags i cs)]"
      by (cases "stop_flags i cs") simp_all
    from reachable_below_length [OF assms(1) i idx] have lt: "nat i < length_a (entries p)" .
    from idx have nn: "int (nat i) = i" by (simp add: is_array_index_def)
    have fresh: "props (entries (new_Profiler pf0 folder)) i = None"
      by (simp add: new_Profiler_def empty_array_def)
    from run_started_stopped [OF fresh i flags assms(3) assms(1)] obtain e d where
      e: "props (entries p) i = Some e"
      and st: "state e = (if hd (stop_flags i cs) then succeeded else failed)"
      and d: "dur e = Some d" "0 \<le> d"
      by blast
    from well_formed_reachable [of cs pf0 folder] assms(1) have "well_formed (entries p)"
      by simp
    with e have tid: "tid e = i" unfolding well_formed_def by blast
    from lt e nn have ev: "traceEvents (snd (snd (write pf p))) ! nat i = entry_json e"
      by (simp add: nth_traceEvents element_json_def)
    from lt d show ?thesis
      by (simp add: length_traceEvents ev field_entry_json tid st state_name_def)
  qed
  from dist count each show ?thesis by blast
qed

text \<open>The example sequence: two entries, id 1 succeeded and id 0 failed.\<close>

theorem started_and_stopped_written_witness:
  "length (filter (\<lambda>ev. ev \<noteq> JNull)
     (traceEvents (snd (snd (write (node (9, 0)) (snd (run two_tasks fresh))))))) = 2 \<and>
   field ''state'' (traceEvents (snd (snd (write (node (9, 0)) (snd (run two_tasks fresh))))) ! 1)
     = Some (JStr ''succeeded'') \<and>
   field ''state'' (traceEvents (snd (snd (write (node (9, 0)) (snd (run two_tasks fresh))))) ! 0)
     = Some (JStr ''failed'') \<and>
   field ''tid'' (traceEvents (snd (snd (write (node (9, 0)) (snd (run two_tasks fresh))))) ! 1)
     = Some (JNum 1)"
proof -
  have ok: "\<forall>i \<in> set (started_ids two_tasks).
              is_array_index i \<and> length (stop_flags i two_tasks) = 1"
    by (simp add: two_tasks_ids two_tasks_flags is_array_index_def)
  from started_and_stopped_written [OF two_tasks_run ok two_tasks_sorted, of "node (9, 0)"]
  show ?thesis
    by (simp add: two_tasks_ids two_tasks_flags)
qed

text \<open>
  The claim as written takes any ids. An id that is no array index, -1 here, is started
  and stopped once without exception, and nothing of it is written: the array has a
  property under -1 and no elements.
\<close>

theorem started_and_stopped_written_counterexample:
  "fst (run [(node (5, 100), Start (- 1) ''build''), (node (7, 50), Stop (- 1) True)] fresh)
     = Inr () \<and>
   started_ids [(node (5, 100), Start (- 1) ''build''), (node (7, 50), Stop (- 1) True)] = [- 1] \<and>
   stop_flags (- 1) [(node (5, 100), Start (- 1) ''build''), (node (7, 50), Stop (- 1) True)]
     = [True] \<and>
   traceEvents (snd (snd (write (node (9, 0))
     (snd (run [(node (5, 100), Start (- 1) ''build''), (node (7, 50), Stop (- 1) True)] fresh)))))
     = []"
  by (simp add: profiler_defs example_defs)

text \<open>The start reading in microseconds.\<close>

lemma micro_nanos: "hrtimeToMicroSeconds t = of_int (hr_nanos t) / 1000"
  by (simp add: hrtimeToMicroSeconds_def hr_nanos_def)

text \<open>
  Claim C5, as amended. After any sequence of calls on a new profiler, the document that
  \<open>write\<close> hands over is an object with the keys \<open>traceEvents\<close>, \<open>displayTimeUnit\<close> and
  \<open>otherData\<close>, in this order. \<open>displayTimeUnit\<close> is \<open>ms\<close>; \<open>otherData\<close> holds the source
  label and the \<open>toJSON\<close> texts of the session's start and end; \<open>traceEvents\<close> is an array
  whose element at index k is either \<open>null\<close> or an entry object with a name, \<open>ph\<close> equal to
  \<open>X\<close>, \<open>ts\<close> equal to the start reading in microseconds, a \<open>pid\<close>, and \<open>tid\<close> equal to k.
  Such an entry is either in state \<open>running\<close> and has no \<open>dur\<close>, or in state \<open>succeeded\<close>
  or \<open>failed\<close> and has one. When no call of the sequence threw, the array reaches past
  every started id that is an array index, its element at index k is \<open>null\<close> exactly when
  no task with id k was started, and the entry of a started id carries the name given to its
  \<open>start\<close>, the clock's reading at that call in microseconds as \<open>ts\<close>, and the process id
  as \<open>pid\<close>.
\<close>

theorem written_document_shape:
  "keys (snd (snd (write pf (snd (run cs (new_Profiler pf0 folder))))))
     = [''traceEvents'', ''displayTimeUnit'', ''otherData''] \<and>
   field ''traceEvents'' (snd (snd (write pf (snd (run cs (new_Profiler pf0 folder))))))
     = Some (JArr (traceEvents (snd (snd (write pf (snd (run cs (new_Profiler pf0 folder)))))))) \<and>
   field ''displayTimeUnit'' (snd (snd (write pf (snd (run cs (new_Profiler pf0 folder))))))
     = Some (JStr ''ms'') \<and>
   field ''otherData'' (snd (snd (write pf (snd (run cs (new_Profiler pf0 folder))))))
     = Some (JObj [(''source'', JStr ''just-tasks profiler''),
                   (''startTime'', JStr (toJSON pf (new_Date pf0))),
                   (''endTime'', JStr (toJSON pf (new_Date pf)))]) \<and>
   (\<forall>k < length (traceEvents (snd (snd (write pf (snd (run cs (new_Profiler pf0 folder))))))).
      traceEvents (snd (snd (write pf (snd (run cs (new_Profiler pf0 folder)))))) ! k = JNull \<or>
      (\<exists>ev nm sec nsec pd.
         traceEvents (snd (snd (write pf (snd (run cs (new_Profiler pf0 folder)))))) ! k = ev \<and>
         field ''name'' ev = Some (JStr nm) \<and>
         field ''ph'' ev = Some (JStr ''X'') \<and>
         field ''startTime'' ev = Some (JArr [JNum (of_int sec), JNum (of_int nsec)]) \<and>
         field ''ts'' ev = Some (JNum ((of_int sec * 1000000000 + of_int nsec) / 1000)) \<and>
         field ''pid'' ev = Some (JNum (of_nat pd)) \<and>
         field ''tid'' ev = Some (JNum (of_nat k)) \<and>
         (field ''state'' ev = Some (JStr ''running'') \<and> field ''dur'' ev = None \<or>
          (field ''state'' ev = Some (JStr ''succeeded'') \<or>
           field ''state'' ev = Some (JStr ''failed'')) \<and>
          (\<exists>d. field ''dur'' ev = Some (JNum d))))) \<and>
   (fst (run cs (new_Profiler pf0 folder)) = Inr () \<longrightarrow>
      (\<forall>i \<in> set (started_ids cs). is_array_index i \<longrightarrow>
         nat i < length (traceEvents (snd (snd (write pf (snd (run cs (new_Profiler pf0 folder)))))))) \<and>
      (\<forall>k < length (traceEvents (snd (snd (write pf (snd (run cs (new_Profiler pf0 folder))))))).
         (traceEvents (snd (snd (write pf (snd (run cs (new_Profiler pf0 folder)))))) ! k = JNull)
           = (int k \<notin> set (started_ids cs))) \<and>
      (\<forall>pf' i nm. (pf', Start i nm) \<in> set cs \<longrightarrow> is_array_index i \<longrightarrow>
         field ''name''
           (traceEvents (snd (snd (write pf (snd (run cs (new_Profiler pf0 folder)))))) ! nat i)
           = Some (JStr nm) \<and>
         field ''ts''
           (traceEvents (snd (snd (write pf (snd (run cs (new_Profiler pf0 folder)))))) ! nat i)
           = Some (JNum (of_int (hr_nanos (process_hrtime pf')) / 1000)) \<and>
         field ''pid''
           (traceEvents (snd (snd (write pf (snd (run cs (new_Profiler pf0 folder)))))) ! nat i)
           = Some (JNum (of_nat (process_pid pf')))))"
proof -
  let ?p = "snd (run cs (new_Profiler pf0 folder))"
  have st: "startTime ?p = new_Date pf0"
    using run_static [of cs "new_Profiler pf0 folder"] by (simp add: new_Profiler_def)
  have wf: "well_formed (entries ?p)"
    by (rule well_formed_reachable)
  have top: "keys (snd (snd (write pf ?p))) = [''traceEvents'', ''displayTimeUnit'', ''otherData'']"
    "field ''traceEvents'' (snd (snd (write pf ?p))) = Some (JArr (traceEvents (snd (snd (write pf ?p)))))"
    "field ''displayTimeUnit'' (snd (snd (write pf ?p))) = Some (JStr ''ms'')"
    "field ''otherData'' (snd (snd (write pf ?p)))
       = Some (JObj [(''source'', JStr ''just-tasks profiler''),
                     (''startTime'', JStr (toJSON pf (new_Date pf0))),
                     (''endTime'', JStr (toJSON pf (new_Date pf)))])"
    by (simp_all add: write_def Let_def traceEvents_def array_json_def st)
  have evs: "traceEvents (snd (snd (write pf ?p))) ! k = JNull \<or>
      (\<exists>ev nm sec nsec pd.
         traceEvents (snd (snd (write pf ?p))) ! k = ev \<and>
         field ''name'' ev = Some (JStr nm) \<and>
         field ''ph'' ev = Some (JStr ''X'') \<and>
         field ''startTime'' ev = Some (JArr [JNum (of_int sec), JNum (of_int nsec)]) \<and>
         field ''ts'' ev = Some (JNum ((of_int sec * 1000000000 + of_int nsec) / 1000)) \<and>
         field ''pid'' ev = Some (JNum (of_nat pd)) \<and>
         field ''tid'' ev = Some (JNum (of_nat k)) \<and>
         (field ''state'' ev = Some (JStr ''running'') \<and> field ''dur'' ev = None \<or>
          (field ''state'' ev = Some (JStr ''succeeded'') \<or>
           field ''state'' ev = Some (JStr ''failed'')) \<and>
          (\<exists>d. field ''dur'' ev = Some (JNum d))))"
    if k: "k < length (traceEvents (snd (snd (write pf ?p))))" for k
  proof (cases "props (entries ?p) (int k)")
    case None
    with k show ?thesis
      by (simp add: length_traceEvents nth_traceEvents element_json_def)
  next
    case (Some e)
    with k have ev: "traceEvents (snd (snd (write pf ?p))) ! k = entry_json e"
      by (simp add: length_traceEvents nth_traceEvents element_json_def)
    from wf Some have tid: "tid e = int k" and ts: "ts e = hrtimeToMicroSeconds (startTime_e e)"
      and dur: "dur e = None \<longleftrightarrow> state e = running"
      unfolding well_formed_def by blast+
    have shape: "field ''name'' (entry_json e) = Some (JStr (name e)) \<and>
         field ''ph'' (entry_json e) = Some (JStr ''X'') \<and>
         field ''startTime'' (entry_json e)
           = Some (JArr [JNum (of_int (fst (startTime_e e))), JNum (of_int (snd (startTime_e e)))]) \<and>
         field ''ts'' (entry_json e)
           = Some (JNum ((of_int (fst (startTime_e e)) * 1000000000 + of_int (snd (startTime_e e))) / 1000)) \<and>
         field ''pid'' (entry_json e) = Some (JNum (of_nat (pid e))) \<and>
         field ''tid'' (entry_json e) = Some (JNum (of_nat k))"
      by (simp add: field_entry_json tid ts hrtimeToMicroSeconds_def)
    have life: "field ''state'' (entry_json e) = Some (JStr ''running'') \<and>
                field ''dur'' (entry_json e) = None \<or>
          (field ''state'' (entry_json e) = Some (JStr ''succeeded'') \<or>
           field ''state'' (entry_json e) = Some (JStr ''failed'')) \<and>
          (\<exists>d. field ''dur'' (entry_json e) = Some (JNum d))"
      using dur by (cases "state e") (auto simp add: field_entry_json state_name_def)
    from ev shape life show ?thesis by blast
  qed
  have link: "(\<forall>i \<in> set (started_ids cs). is_array_index i \<longrightarrow>
         nat i < length (traceEvents (snd (snd (write pf ?p))))) \<and>
      (\<forall>k < length (traceEvents (snd (snd (write pf ?p)))).
         (traceEvents (snd (snd (write pf ?p))) ! k = JNull) = (int k \<notin> set (started_ids cs))) \<and>
      (\<forall>pf' i nm. (pf', Start i nm) \<in> set cs \<longrightarrow> is_array_index i \<longrightarrow>
         field ''name'' (traceEvents (snd (snd (write pf ?p))) ! nat i) = Some (JStr nm) \<and>
         field ''ts'' (traceEvents (snd (snd (write pf ?p))) ! nat i)
           = Some (JNum (of_int (hr_nanos (process_hrtime pf')) / 1000)) \<and>
         field ''pid'' (traceEvents (snd (snd (write pf ?p))) ! nat i)
           = Some (JNum (of_nat (process_pid pf'))))"
    if ok: "fst (run cs (new_Profiler pf0 folder)) = Inr ()"
  proof -
    from ok have ran: "run cs (new_Profiler pf0 folder) = (Inr (), ?p)"
      by (simp add: prod_eq_iff)
    have below: "nat i < length (traceEvents (snd (snd (write pf ?p))))"
      if "i \<in> set (started_ids cs)" "is_array_index i" for i
      using reachable_below_length [OF ran that] by (simp add: length_traceEvents)
    have holes: "(traceEvents (snd (snd (write pf ?p))) ! k = JNull) = (int k \<notin> set (started_ids cs))"
      if "k < length (traceEvents (snd (snd (write pf ?p))))" for k
      using that reachable_dom [OF ran]
      by (auto simp add: length_traceEvents nth_traceEvents element_json_Null)
    have recorded: "field ''name'' (traceEvents (snd (snd (write pf ?p))) ! nat i) = Some (JStr nm) \<and>
         field ''ts'' (traceEvents (snd (snd (write pf ?p))) ! nat i)
           = Some (JNum (of_int (hr_nanos (process_hrtime pf')) / 1000)) \<and>
         field ''pid'' (traceEvents (snd (snd (write pf ?p))) ! nat i)
           = Some (JNum (of_nat (process_pid pf')))"
      if mem: "(pf', Start i nm) \<in> set cs" and idx: "is_array_index i" for pf' i nm
    proof -
      from run_started [OF ran mem] obtain e where e: "props (entries ?p) i = Some e"
        and f: "name e = nm" "startTime_e e = process_hrtime pf'" "pid e = process_pid pf'"
        by blast
      from wf e have ts: "ts e = hrtimeToMicroSeconds (startTime_e e)"
        unfolding well_formed_def by blast
      from idx have "int (nat i) = i" by (simp add: is_array_index_def)
      with reachable_below_length [OF ran Start_started [OF mem] idx] e
      have "traceEvents (snd (snd (write pf ?p))) ! nat i = entry_json e"
        by (simp add: nth_traceEvents element_json_def)
      then show ?thesis
        by (simp add: field_entry_json f ts micro_nanos)
    qed
    from below holes recorded show ?thesis by blast
  qed
  from top evs link show ?thesis by blast
qed

text \<open>
  After \<open>start(2, "lint")\<close> at 5 s + 100 ns: holes at the indices 0 and 1, and at index 2
  the entry with that name, \<open>ts\<close> 5000000.1, \<open>tid\<close> 2 and \<open>ph\<close> \<open>X\<close>.
\<close>

theorem written_document_shape_witness:
  "keys (snd (snd (write (node (9, 0)) (snd (run one_task fresh)))))
     = [''traceEvents'', ''displayTimeUnit'', ''otherData''] \<and>
   traceEvents (snd (snd (write (node (9, 0))
       (snd (run one_task fresh))))) ! 0 = JNull \<and>
   traceEvents (snd (snd (write (node (9, 0))
       (snd (run one_task fresh))))) ! 1 = JNull \<and>
   field ''name'' (traceEvents (snd (snd (write (node (9, 0))
       (snd (run one_task fresh))))) ! 2) = Some (JStr ''lint'') \<and>
   field ''ts'' (traceEvents (snd (snd (write (node (9, 0))
       (snd (run one_task fresh))))) ! 2)
     = Some (JNum (50000001 / 10)) \<and>
   field ''tid'' (traceEvents (snd (snd (write (node (9, 0))
       (snd (run one_task fresh))))) ! 2) = Some (JNum 2) \<and>
   field ''ph'' (traceEvents (snd (snd (write (node (9, 0))
       (snd (run one_task fresh))))) ! 2) = Some (JStr ''X'')"
proof -
  let ?evs = "traceEvents (snd (snd (write (node (9, 0))
                (snd (run one_task (new_Profiler (node (0, 0)) None))))))"
  have ok: "fst (run one_task (new_Profiler (node (0, 0)) None)) = Inr ()"
    by (simp add: one_task_def profiler_defs example_defs)
  have ids: "started_ids one_task = [2]" and idx: "is_array_index 2"
    and mem: "(node (5, 100), Start 2 ''lint'') \<in> set one_task"
    and clock: "hr_nanos (process_hrtime (node (5, 100))) = 5000000100"
    by (simp_all add: one_task_def is_array_index_def node_def hr_nanos_def)
  note inst = written_document_shape [of "node (9, 0)" one_task "node (0, 0)" None]
  note top = inst [THEN conjunct1]
  note rest = inst [THEN conjunct2, THEN conjunct2, THEN conjunct2, THEN conjunct2]
  note shape = rest [THEN conjunct1, rule_format]
  note link = rest [THEN conjunct2, THEN mp, OF ok]
  note below = link [THEN conjunct1, rule_format]
  note holes = link [THEN conjunct2, THEN conjunct1, rule_format]
  note recorded = link [THEN conjunct2, THEN conjunct2, rule_format, OF mem idx]
  from below [of 2] ids idx have len: "2 < length ?evs"
    by simp
  then have low: "0 < length ?evs" "1 < length ?evs"
    by linarith+
  from holes [OF low(1)] holes [OF low(2)] holes [OF len] ids
  have h: "?evs ! 0 = JNull" "?evs ! 1 = JNull" "?evs ! 2 \<noteq> JNull"
    by simp_all
  from recorded clock have rec: "field ''name'' (?evs ! 2) = Some (JStr ''lint'')"
    "field ''ts'' (?evs ! 2) = Some (JNum (50000001 / 10))"
    by simp_all
  from shape [OF len] h(3) have sh: "field ''tid'' (?evs ! 2) = Some (JNum 2)"
    "field ''ph'' (?evs ! 2) = Some (JStr ''X'')"
    by auto
  from top h rec sh show ?thesis
    unfolding fresh_def by simp
qed

text \<open>
  The claim as written makes every element an entry object with a \<open>dur\<close>. After
  \<open>start(2, "lint")\<close> alone the element at index 0 is \<open>null\<close>, with no members at all, and
  the entry at index 2 has no \<open>dur\<close>.
\<close>

theorem written_document_shape_counterexample:
  "fst (start (node (5, 100)) 2 ''lint'' fresh) = Inr () \<and>
   length (traceEvents (snd (snd (write (node (9, 0))
       (snd (start (node (5, 100)) 2 ''lint'' fresh)))))) = 3 \<and>
   traceEvents (snd (snd (write (node (9, 0))
       (snd (start (node (5, 100)) 2 ''lint'' fresh))))) ! 0 = JNull \<and>
   field ''name'' (traceEvents (snd (snd (write (node (9, 0))
       (snd (start (node (5, 100)) 2 ''lint'' fresh))))) ! 0) = None \<and>
   traceEvents (snd (snd (write (node (9, 0))
       (snd (start (node (5, 100)) 2 ''lint'' fresh))))) ! 2 \<noteq> JNull \<and>
   field ''dur'' (traceEvents (snd (snd (write (node (9, 0))
       (snd (start (node (5, 100)) 2 ''lint'' fresh))))) ! 2) = None"
  by (simp add: profiler_defs example_defs upt_3)

text \<open>
  Claim C8, as amended. Take a sequence of calls on a new profiler in which no call throws,
  at least one id is started and every started id is an array index. Then the written
  \<open>traceEvents\<close> has length (greatest started id) + 1; its element at index k is \<open>null\<close>
  exactly when k was never started; every other element carries \<open>id\<close> (equal to k), \<open>cwd\<close>,
  \<open>state\<close> and \<open>startTime\<close>; and the entry of a started id carries \<open>packageName\<close> exactly
  when the manifest read by its \<open>start\<close> had a \<open>name\<close>, with that value.
\<close>

theorem array_indexed_by_id:
  assumes "run cs (new_Profiler pf0 folder) = (Inr (), p)"
    and "started_ids cs \<noteq> []"
    and "\<forall>i \<in> set (started_ids cs). is_array_index i"
  shows "length (traceEvents (snd (snd (write pf p)))) = nat (Max (set (started_ids cs))) + 1 \<and>
    (\<forall>k < length (traceEvents (snd (snd (write pf p)))).
       (traceEvents (snd (snd (write pf p))) ! k = JNull) = (int k \<notin> set (started_ids cs))) \<and>
    (\<forall>k < length (traceEvents (snd (snd (write pf p)))).
       traceEvents (snd (snd (write pf p))) ! k \<noteq> JNull \<longrightarrow>
       field ''id'' (traceEvents (snd (snd (write pf p))) ! k) = Some (JNum (of_nat k)) \<and>
       (\<exists>dir. field ''cwd'' (traceEvents (snd (snd (write pf p))) ! k) = Some (JStr dir)) \<and>
       (\<exists>st. field ''state'' (traceEvents (snd (snd (write pf p))) ! k) = Some (JStr st)) \<and>
       (\<exists>sec nsec. field ''startTime'' (traceEvents (snd (snd (write pf p))) ! k)
                     = Some (JArr [JNum sec, JNum nsec]))) \<and>
    (\<forall>pf' i nm. (pf', Start i nm) \<in> set cs \<longrightarrow>
       read_packageName pf' (process_cwd pf')
         = Inr (field ''packageName'' (traceEvents (snd (snd (write pf p))) ! nat i)))"
proof -
  have len: "length (traceEvents (snd (snd (write pf p)))) = nat (Max (set (started_ids cs))) + 1"
    using reachable_length [OF assms] by (simp add: length_traceEvents)
  have holes: "(traceEvents (snd (snd (write pf p))) ! k = JNull) = (int k \<notin> set (started_ids cs))"
    if "k < length (traceEvents (snd (snd (write pf p))))" for k
    using that reachable_dom [OF assms(1)]
    by (auto simp add: length_traceEvents nth_traceEvents element_json_Null)
  have extra: "field ''id'' (traceEvents (snd (snd (write pf p))) ! k) = Some (JNum (of_nat k)) \<and>
       (\<exists>dir. field ''cwd'' (traceEvents (snd (snd (write pf p))) ! k) = Some (JStr dir)) \<and>
       (\<exists>st. field ''state'' (traceEvents (snd (snd (write pf p))) ! k) = Some (JStr st)) \<and>
       (\<exists>sec nsec. field ''startTime'' (traceEvents (snd (snd (write pf p))) ! k)
                     = Some (JArr [JNum sec, JNum nsec]))"
    if k: "k < length (traceEvents (snd (snd (write pf p))))"
      and nn: "traceEvents (snd (snd (write pf p))) ! k \<noteq> JNull" for k
  proof -
    from k nn obtain e where e: "props (entries p) (int k) = Some e"
      by (auto simp add: length_traceEvents nth_traceEvents element_json_Null)
    with k have ev: "traceEvents (snd (snd (write pf p))) ! k = entry_json e"
      by (simp add: length_traceEvents nth_traceEvents element_json_def)
    from well_formed_reachable [of cs pf0 folder] assms(1) have "well_formed (entries p)"
      by simp
    with e have "id_e e = int k" unfolding well_formed_def by blast
    then show ?thesis
      by (simp add: ev field_entry_json)
  qed
  have pkg: "read_packageName pf' (process_cwd pf')
         = Inr (field ''packageName'' (traceEvents (snd (snd (write pf p))) ! nat i))"
    if mem: "(pf', Start i nm) \<in> set cs" for pf' i nm
  proof -
    from run_started [OF assms(1) mem] obtain e where e: "props (entries p) i = Some e"
      and pkg: "read_packageName pf' (process_cwd pf') = Inr (packageName e)"
      by blast
    from Start_started [OF mem] have i: "i \<in> set (started_ids cs)" .
    with assms(3) have idx: "is_array_index i" by simp
    then have "int (nat i) = i" by (simp add: is_array_index_def)
    with reachable_below_length [OF assms(1) i idx] e
    have "traceEvents (snd (snd (write pf p))) ! nat i = entry_json e"
      by (simp add: nth_traceEvents element_json_def)
    with pkg show ?thesis
      by (simp add: field_entry_json)
  qed
  from len holes extra pkg show ?thesis by blast
qed

text \<open>
  One start of id 2 under a manifest named \<open>just\<close>: three elements, two of them holes, and
  the package name on the third.
\<close>

theorem array_indexed_by_id_witness:
  "length (traceEvents (snd (snd (write (node (9, 0))
       (snd (run [(node_named (5, 100), Start 2 ''lint'')] fresh))))))  = 3 \<and>
   traceEvents (snd (snd (write (node (9, 0))
       (snd (run [(node_named (5, 100), Start 2 ''lint'')] fresh))))) ! 0 = JNull \<and>
   traceEvents (snd (snd (write (node (9, 0))
       (snd (run [(node_named (5, 100), Start 2 ''lint'')] fresh))))) ! 1 = JNull \<and>
   field ''id'' (traceEvents (snd (snd (write (node (9, 0))
       (snd (run [(node_named (5, 100), Start 2 ''lint'')] fresh))))) ! 2) = Some (JNum 2) \<and>
   field ''packageName'' (traceEvents (snd (snd (write (node (9, 0))
       (snd (run [(node_named (5, 100), Start 2 ''lint'')] fresh))))) ! 2) = Some (JStr ''just'')"
proof -
  let ?cs = "[(node_named (5, 100), Start 2 ''lint'')]"
  have "fst (run ?cs fresh) = Inr ()"
    by (simp add: profiler_defs example_defs)
  then have ran: "run ?cs (new_Profiler (node (0, 0)) None) = (Inr (), snd (run ?cs fresh))"
    by (simp add: fresh_def prod_eq_iff)
  have ids: "started_ids ?cs \<noteq> []" "\<forall>i \<in> set (started_ids ?cs). is_array_index i"
    by (simp_all add: is_array_index_def)
  have mem: "(node_named (5, 100), Start 2 ''lint'') \<in> set ?cs"
    by simp
  have pkg: "read_packageName (node_named (5, 100)) (process_cwd (node_named (5, 100)))
               = Inr (Some (JStr ''just''))"
    by (simp add: read_packageName_def example_defs)
  note inst = array_indexed_by_id [OF ran ids, of "node (9, 0)"]
  from inst have len: "length (traceEvents (snd (snd (write (node (9, 0)) (snd (run ?cs fresh)))))) = 3"
    by simp
  from inst len have holes: "\<forall>k < 3.
       (traceEvents (snd (snd (write (node (9, 0)) (snd (run ?cs fresh))))) ! k = JNull) =
       (int k \<noteq> 2)"
    by simp
  from holes have h0: "traceEvents (snd (snd (write (node (9, 0)) (snd (run ?cs fresh))))) ! 0 = JNull"
    and h1: "traceEvents (snd (snd (write (node (9, 0)) (snd (run ?cs fresh))))) ! 1 = JNull"
    and h2: "traceEvents (snd (snd (write (node (9, 0)) (snd (run ?cs fresh))))) ! 2 \<noteq> JNull"
    by auto
  from inst len h2 have id2: "field ''id'' (traceEvents (snd (snd (write (node (9, 0))
       (snd (run ?cs fresh))))) ! 2) = Some (JNum 2)"
    by auto
  from inst mem pkg have "field ''packageName'' (traceEvents (snd (snd (write (node (9, 0))
       (snd (run ?cs fresh))))) ! nat 2) = Some (JStr ''just'')"
    by auto
  with len h0 h1 id2 show ?thesis by simp
qed

text \<open>
  The claim as written puts \<open>packageName\<close> on every event and ties the length to the
  greatest id for any ids. Without a manifest the entry of id 0 has no \<open>packageName\<close>; and
  a start of id -5 sets a property that is no element, so that the array stays empty.
\<close>

theorem array_indexed_by_id_counterexample:
  "fst (start (node (5, 100)) 0 ''a'' fresh) = Inr () \<and>
   traceEvents (snd (snd (write (node (9, 0)) (snd (start (node (5, 100)) 0 ''a'' fresh))))) ! 0
     \<noteq> JNull \<and>
   field ''packageName'' (traceEvents (snd (snd (write (node (9, 0))
       (snd (start (node (5, 100)) 0 ''a'' fresh))))) ! 0) = None \<and>
   fst (start (node (5, 100)) (- 5) ''a'' fresh) = Inr () \<and>
   length (traceEvents (snd (snd (write (node (9, 0))
       (snd (start (node (5, 100)) (- 5) ''a'' fresh)))))) = 0"
  by (simp add: profiler_defs example_defs upt_rec)

end
